theory Spec2Isabelle
  imports
    Complex_Main
    "HOL-Library.Char_ord"
    "HOL-Library.List_Lexorder"
    "HOL-Library.Product_Lexorder"
    "HOL-Library.Multiset"
begin

section \<open>Conventions of the embedding\<close>

text \<open>
  The payee matcher is a Python program. Its functions are embedded as HOL functions:
  \<^item> a Python \<open>float\<close> is a \<^typ>\<open>real\<close> (rounding, infinities and NaN are not modelled);
  \<^item> a Python \<open>str\<close> is a \<^typ>\<open>string\<close>; the characters are read as the code points of
    the ASCII range, where \<open>str.lower\<close> maps \<open>A-Z\<close> to \<open>a-z\<close> and NFKD normalisation
    changes nothing. Strings are compared as Python compares them, lexicographically by
    code point (\<open>Char_ord\<close>, \<open>List_Lexorder\<close>);
  \<^item> an exception is a value \<open>Inl e\<close> of a sum type; a function that catches it has the
    handler as a branch;
  \<^item> a \<open>dict\<close> whose insertion order is observable is an association list;
  \<^item> what lives outside the repository (rapidfuzz, Double Metaphone, the SQL engine's
    similarity searches, a trained scikit-learn model, the thread pool's completion order)
    is a parameter of the function that uses it.
\<close>

datatype error = TypeError | ValueError | ZeroDivisionError | IndexError | DbError | ModelError

section \<open>Python built-ins used by several modules\<close>

text \<open>
  \<open>sorted(xs, key=f, reverse=True)\<close> and \<open>xs.sort(key=f, reverse=True)\<close>: CPython reverses
  the list, runs its stable ascending sort and reverses the result, so that elements with
  equal keys keep their original relative order. \<^const>\<open>sort_key\<close> is a stable ascending
  insertion sort.
\<close>

definition sorted_reverse :: "('a \<Rightarrow> 'k::linorder) \<Rightarrow> 'a list \<Rightarrow> 'a list" where
  "sorted_reverse f xs = rev (sort_key f (rev xs))"

text \<open>The slice \<open>xs[:k]\<close>; a negative \<open>k\<close> counts from the end.\<close>

definition slice_to :: "int \<Rightarrow> 'a list \<Rightarrow> 'a list" where
  "slice_to k xs = (if 0 \<le> k then take (nat k) xs else take (length xs - nat (- k)) xs)"

text \<open>
  An insertion-ordered \<open>dict\<close> as an association list: \<open>d[k] = v\<close> overwrites in place or
  appends a new key at the end; \<open>d.values()\<close> lists the values in insertion order.
\<close>

fun dict_set :: "('k \<times> 'v) list \<Rightarrow> 'k \<Rightarrow> 'v \<Rightarrow> ('k \<times> 'v) list" where
  "dict_set [] k v = [(k, v)]"
| "dict_set ((k', v') # d) k v = (if k' = k then (k, v) # d else (k', v') # dict_set d k v)"

definition dict_values :: "('k \<times> 'v) list \<Rightarrow> 'v list" where
  "dict_values d = map snd d"

text \<open>\<open>max(scores)\<close> on a non-empty list of floats.\<close>

definition max_list :: "real list \<Rightarrow> real" where
  "max_list xs = fold max (tl xs) (hd xs)"

section \<open>Python strings and the regular expressions of canonicalize.py\<close>

text \<open>
  The character classes, on the ASCII range: \<open>str.isspace\<close> (which \<open>strip\<close>, \<open>split\<close>
  and the pattern \<open>\s\<close> share) holds of the code points 9 to 13, 28 to 31 and 32; \<open>\w\<close>
  is a letter, a digit or the underscore; \<open>\d\<close> is a digit.
\<close>

definition is_space :: "char \<Rightarrow> bool" where
  "is_space c \<longleftrightarrow> c \<in> set [CHR 0x09, CHR 0x0A, CHR 0x0B, CHR 0x0C, CHR 0x0D,
                            CHR 0x1C, CHR 0x1D, CHR 0x1E, CHR 0x1F, CHR 0x20]"

definition is_lower :: "char \<Rightarrow> bool" where
  "is_lower c \<longleftrightarrow> CHR ''a'' \<le> c \<and> c \<le> CHR ''z''"

definition is_upper :: "char \<Rightarrow> bool" where
  "is_upper c \<longleftrightarrow> CHR ''A'' \<le> c \<and> c \<le> CHR ''Z''"

definition is_digit :: "char \<Rightarrow> bool" where
  "is_digit c \<longleftrightarrow> CHR ''0'' \<le> c \<and> c \<le> CHR ''9''"

definition is_word :: "char \<Rightarrow> bool" where
  "is_word c \<longleftrightarrow> is_lower c \<or> is_upper c \<or> is_digit c \<or> c = CHR ''_''"

text \<open>\<open>str.lower\<close>, \<open>str.upper\<close>, \<open>str.strip\<close>, \<open>str.split()\<close> and \<open>' '.join\<close>.\<close>

definition lower_char :: "char \<Rightarrow> char" where
  "lower_char c = (if is_upper c then char_of (of_char c + (32::nat)) else c)"

definition upper_char :: "char \<Rightarrow> char" where
  "upper_char c = (if is_lower c then char_of (of_char c - (32::nat)) else c)"

definition lower :: "string \<Rightarrow> string" where
  "lower s = map lower_char s"

definition strip :: "string \<Rightarrow> string" where
  "strip s = rev (dropWhile is_space (rev (dropWhile is_space s)))"

text \<open>\<open>split_acc\<close> scans with the current word (reversed) in \<open>acc\<close>.\<close>

fun split_acc :: "string \<Rightarrow> string \<Rightarrow> string list" where
  "split_acc acc [] = (if acc = [] then [] else [rev acc])"
| "split_acc acc (c # cs) =
     (if is_space c
      then (if acc = [] then split_acc [] cs else rev acc # split_acc [] cs)
      else split_acc (c # acc) cs)"

definition split :: "string \<Rightarrow> string list" where
  "split s = split_acc [] s"

fun join :: "string list \<Rightarrow> string" where
  "join [] = []"
| "join [t] = t"
| "join (t # ts) = t @ CHR '' '' # join ts"

text \<open>
  \<open>re.sub(r'[^a-z0-9&\s]+', ' ', text)\<close>: every maximal run of characters outside the
  class becomes one space. The flag says whether the scan is inside such a run.
\<close>

definition allowed :: "char \<Rightarrow> bool" where
  "allowed c \<longleftrightarrow> is_lower c \<or> is_digit c \<or> c = CHR ''&'' \<or> is_space c"

fun replace_disallowed :: "bool \<Rightarrow> string \<Rightarrow> string" where
  "replace_disallowed in_run [] = []"
| "replace_disallowed in_run (c # cs) =
     (if allowed c then c # replace_disallowed False cs
      else if in_run then replace_disallowed True cs
      else CHR '' '' # replace_disallowed True cs)"

text \<open>
  \<open>re.sub(rf'\b{abbr}\b', full, text)\<close> for an abbreviation made of letters: a match is
  an occurrence of \<open>abbr\<close> with no word character before or after it, that is, a maximal
  run of word characters equal to \<open>abbr\<close>. \<open>sub_words f\<close> rewrites every maximal run of
  word characters by \<open>f\<close>, the run being collected (reversed) in \<open>acc\<close>.
\<close>

fun sub_words :: "(string \<Rightarrow> string) \<Rightarrow> string \<Rightarrow> string \<Rightarrow> string" where
  "sub_words f acc [] = f (rev acc)"
| "sub_words f acc (c # cs) =
     (if is_word c then sub_words f (c # acc) cs
      else f (rev acc) @ c # sub_words f [] cs)"

definition sub_word_boundary :: "string \<Rightarrow> string \<Rightarrow> string \<Rightarrow> string" where
  "sub_word_boundary abbr full text = sub_words (\<lambda>w. if w = abbr then full else w) [] text"

section \<open>canonicalize.py\<close>

definition GENERIC_WORDS :: "string list" where
  "GENERIC_WORDS =
    [''the'', ''of'', ''and'', ''group'', ''company'', ''services'',
     ''holdings'', ''solutions'', ''global'', ''international'',
     ''enterprises'', ''partners'', ''associates'', ''consulting'']"

definition CORPORATE_SUFFIXES :: "string list" where
  "CORPORATE_SUFFIXES =
    [''co'', ''inc'', ''incorporated'', ''llc'', ''l.l.c'', ''llp'', ''ltd'', ''limited'',
     ''corp'', ''corporation'', ''plc'', ''p.l.c'', ''lp'', ''l.p'',
     ''gmbh'', ''bv'', ''nv'', ''sa'', ''ag'', ''oy'', ''kk'', ''srl'', ''spa'',
     ''pty'', ''kft'', ''sp z o.o'', ''s.a.'', ''s.a.s.'', ''aps'', ''ab'', ''as'',
     ''oyj'', ''k.k.'', ''bvba'', ''e.k.'', ''sarl'', ''eurl'', ''sas'', ''snc'',
     ''pty ltd'', ''pvt ltd'', ''private limited'', ''public limited'',
     ''limitada'', ''ltda'', ''sl'', ''s.l.'', ''cv'', ''c.v.'', ''de cv'']"

text \<open>The dict \<open>ABBREVIATIONS\<close>, in insertion order (the order \<open>.items()\<close> iterates in).\<close>

definition ABBREVIATIONS :: "(string \<times> string) list" where
  "ABBREVIATIONS =
    [(''intl'', ''international''),
     (''natl'', ''national''),
     (''assoc'', ''associates''),
     (''mgmt'', ''management''),
     (''svcs'', ''services''),
     (''grp'', ''group''),
     (''co'', ''company''),
     (''corp'', ''corporation''),
     (''inc'', ''incorporated''),
     (''ltd'', ''limited'')]"

text \<open>
  \<open>remove_diacritics\<close>: NFKD normalisation, then the combining marks are dropped. On
  the ASCII range nothing decomposes and nothing is a combining mark.
\<close>

definition remove_diacritics :: "string \<Rightarrow> string" where
  "remove_diacritics text = text"

text \<open>The loop \<open>for abbr, full in ABBREVIATIONS.items(): text = re.sub(...)\<close>.\<close>

definition expand_abbreviations :: "string \<Rightarrow> string" where
  "expand_abbreviations text =
     fold (\<lambda>(abbr, full) text. sub_word_boundary abbr full text) ABBREVIATIONS text"

text \<open>
  The patterns of \<open>handle_special_cases\<close>. \<open>$\<close> matches at the end of the string and also
  just before a newline that ends it; \<open>before_final_newline\<close> is the string without that
  newline.
\<close>

definition ends_with_newline :: "string \<Rightarrow> bool" where
  "ends_with_newline t \<longleftrightarrow> t \<noteq> [] \<and> last t = CHR 0x0A"

fun initial_pairs :: "string \<Rightarrow> bool" where
  "initial_pairs [] = True"
| "initial_pairs [a] = False"
| "initial_pairs (a # b # r) = (is_lower a \<and> b = CHR ''.'' \<and> initial_pairs r)"

text \<open>\<open>re.match(r'^[a-z]\.([a-z]\.)*$', token)\<close>\<close>

definition matches_initials :: "string \<Rightarrow> bool" where
  "matches_initials t \<longleftrightarrow>
     (t \<noteq> [] \<and> initial_pairs t)
     \<or> (ends_with_newline t \<and> butlast t \<noteq> [] \<and> initial_pairs (butlast t))"

definition letters_then_digits :: "string \<Rightarrow> bool" where
  "letters_then_digits t \<longleftrightarrow>
     takeWhile is_lower t \<noteq> [] \<and> dropWhile is_lower t \<noteq> []
     \<and> list_all is_digit (dropWhile is_lower t)"

text \<open>\<open>re.match(r'^[a-z]+\d+$', token)\<close>\<close>

definition matches_letters_digits :: "string \<Rightarrow> bool" where
  "matches_letters_digits t \<longleftrightarrow>
     letters_then_digits t \<or> (ends_with_newline t \<and> letters_then_digits (butlast t))"

text \<open>\<open>re.sub(r'\d+$', '', token)\<close>\<close>

definition drop_trailing_digits :: "string \<Rightarrow> string" where
  "drop_trailing_digits t = rev (dropWhile is_digit (rev t))"

definition sub_trailing_digits :: "string \<Rightarrow> string" where
  "sub_trailing_digits t =
     (if ends_with_newline t then drop_trailing_digits (butlast t) @ [CHR 0x0A]
      else drop_trailing_digits t)"

text \<open>The body of the loop of \<open>handle_special_cases\<close>; the hyphen branch is \<open>pass\<close>.\<close>

definition special_case :: "string \<Rightarrow> string" where
  "special_case token =
     (let token = (if matches_initials token
                   then filter (\<lambda>c. c \<noteq> CHR ''.'') token else token);
          token = (if matches_letters_digits token
                   then sub_trailing_digits token else token)
      in token)"

definition handle_special_cases :: "string list \<Rightarrow> string list" where
  "handle_special_cases tokens = map special_case tokens"

text \<open>
  The result dict of \<open>canonicalize\<close>. \<open>dm_codes\<close> is \<open>list(set(...))\<close>, whose order Python
  leaves open; every reader of it in the program turns it back into a set.
\<close>

record canon_data =
  canon :: string
  tokens :: "string list"
  dm_codes :: "string list"

text \<open>The tokens up to the sort: expansion, split, the two filters, the special cases.\<close>

definition raw_tokens :: "string \<Rightarrow> string list" where
  "raw_tokens name_raw =
     (let text = strip (lower name_raw);
          text = remove_diacritics text;
          text = replace_disallowed False text;
          text = expand_abbreviations text;
          tokens = split text;
          tokens = filter (\<lambda>t. t \<notin> set GENERIC_WORDS \<and> t \<notin> set CORPORATE_SUFFIXES) tokens
      in handle_special_cases tokens)"

text \<open>\<open>doublemetaphone\<close> is the function of the \<open>metaphone\<close> package: a pair of codes.\<close>

definition canonicalize :: "(string \<Rightarrow> string \<times> string) \<Rightarrow> string \<Rightarrow> canon_data" where
  "canonicalize doublemetaphone name_raw =
     (if name_raw = [] \<or> strip name_raw = []
      then \<lparr>canon = [], tokens = [], dm_codes = []\<rparr>
      else
        let tokens = raw_tokens name_raw;
            tokens = sort (remdups (filter (\<lambda>t. t \<noteq> []) tokens));
            canon = join tokens;
            dm_codes = concat (map (\<lambda>token.
                         (case doublemetaphone token of (c1, c2) \<Rightarrow>
                            filter (\<lambda>c. c \<noteq> []) [c1, c2])) tokens);
            dm_codes = remdups dm_codes
        in \<lparr>canon = canon, tokens = tokens, dm_codes = dm_codes\<rparr>)"

section \<open>candidates.py: the candidate union\<close>

text \<open>
  A view hands over tuples \<open>(payee_id, score, source)\<close>, the source being a tag such as
  \<open>trgm:0.613\<close>. The union keeps one dict per payee; \<open>payee_data\<close> is that dict as the first
  loop builds it, \<open>candidate\<close> the same dict once the second loop has added the aggregates.
\<close>

type_synonym view_hit = "int \<times> real \<times> string"

record payee_data =
  payee_id :: int
  scores :: "(string \<times> real) list"
  sources :: "string list"

record candidate = payee_data +
  max_score :: real
  avg_score :: real
  num_sources :: nat

text \<open>\<open>source.split(":")[0]\<close>: the text before the first colon.\<close>

definition source_type :: "string \<Rightarrow> string" where
  "source_type source = takeWhile (\<lambda>c. c \<noteq> CHR '':'') source"

text \<open>The body of the inner loop of \<open>union_candidates\<close>, for one tuple.\<close>

definition add_hit :: "(int \<times> payee_data) list \<Rightarrow> view_hit \<Rightarrow> (int \<times> payee_data) list" where
  "add_hit payee_scores hit =
     (case hit of (pid, score, source) \<Rightarrow>
        let payee_scores =
              (if map_of payee_scores pid = None
               then dict_set payee_scores pid \<lparr>payee_id = pid, scores = [], sources = []\<rparr>
               else payee_scores);
            d = the (map_of payee_scores pid);
            d = d\<lparr>scores := dict_set (scores d) (source_type source) score\<rparr>;
            d = d\<lparr>sources := sources d @ [source]\<rparr>
        in dict_set payee_scores pid d)"

definition aggregate_hits :: "view_hit list list \<Rightarrow> (int \<times> payee_data) list" where
  "aggregate_hits candidates_lists = fold (\<lambda>candidates ps. fold (\<lambda>hit ps. add_hit ps hit) candidates ps) candidates_lists []"

text \<open>The second loop: \<open>max_score\<close>, \<open>avg_score\<close> and \<open>num_sources\<close> of one payee.\<close>

definition with_aggregates :: "payee_data \<Rightarrow> candidate" where
  "with_aggregates d =
     (let vs = map snd (scores d) in
      payee_data.extend d
        \<lparr>max_score = (if vs \<noteq> [] then max_list vs else 0),
         avg_score = (if vs \<noteq> [] then sum_list vs / real (length vs) else 0),
         num_sources = length vs\<rparr>)"

text \<open>\<open>payee_scores.values()\<close> after both loops, in insertion order.\<close>

definition merged_payees :: "view_hit list list \<Rightarrow> candidate list" where
  "merged_payees candidates_lists = map with_aggregates (dict_values (aggregate_hits candidates_lists))"

text \<open>
  \<open>union_candidates(candidates_lists, k_union=None)\<close>; \<open>settings_k_union\<close> is
  \<open>settings.k_union\<close>. \<open>k_union or settings.k_union\<close> takes the setting when the argument is
  \<open>None\<close> or 0.
\<close>

definition effective_k :: "int option \<Rightarrow> int \<Rightarrow> int" where
  "effective_k k_union settings_k_union =
     (case k_union of None \<Rightarrow> settings_k_union
      | Some k \<Rightarrow> if k = 0 then settings_k_union else k)"

definition union_candidates :: "view_hit list list \<Rightarrow> int option \<Rightarrow> int \<Rightarrow> candidate list" where
  "union_candidates candidates_lists k_union settings_k_union =
     slice_to (effective_k k_union settings_k_union)
       (sorted_reverse (\<lambda>x. (max_score x, num_sources x)) (merged_payees candidates_lists))"

section \<open>features.py: the feature names\<close>

text \<open>\<open>get_feature_names()\<close> returns \<open>sorted([...])\<close> of the 28 names below.\<close>

definition feature_names_src :: "string list" where
  "feature_names_src =
    [''token_set_ratio'', ''token_sort_ratio'', ''partial_ratio'',
     ''ratio'', ''partial_token_ratio'',
     ''levenshtein'', ''jaro_winkler'', ''hamming'',
     ''trgm_score'', ''vec_score'', ''dm_score'', ''num_sources'',
     ''dm_jaccard'', ''dm_overlap_count'', ''dm_overlap_ratio'',
     ''token_jaccard'', ''token_overlap_count'', ''token_overlap_ratio'',
     ''len_diff_abs'', ''len_ratio'', ''token_count_diff'', ''token_count_ratio'',
     ''idf_overlap'',
     ''initials_match'', ''is_abbreviation'', ''has_common_variation'',
     ''exact_match'', ''exact_match_raw'']"

definition get_feature_names :: "string list" where
  "get_feature_names = sort feature_names_src"

section \<open>classifier.py: the scorer\<close>

text \<open>
  \<open>feature_dict = dict(zip(feature_names, features))\<close> followed by
  \<open>feature_dict.get(name, default)\<close>: the entry of the vector at the position of \<open>name\<close>
  in the sorted names, or the default when the vector is too short to have it.
  (A two-dimensional array is read through its first row, which is the same vector.)
\<close>

definition feature_get :: "real list \<Rightarrow> string \<Rightarrow> real \<Rightarrow> real" where
  "feature_get features name dflt =
     (case map_of (zip get_feature_names features) name of
        None \<Rightarrow> dflt
      | Some v \<Rightarrow> v)"

text \<open>\<open>PayeeClassifier.heuristic_score\<close>: the running \<open>score\<close> is the chain of \<open>let\<close>s.\<close>

definition heuristic_score :: "real list \<Rightarrow> real" where
  "heuristic_score features =
     (if feature_get features ''exact_match'' 0 = 1 then 99 / 100
      else
        let score = 0;
            score = score + feature_get features ''token_set_ratio'' 0 * (25 / 100);
            score = score + feature_get features ''token_sort_ratio'' 0 * (20 / 100);
            score = score + feature_get features ''jaro_winkler'' 0 * (15 / 100);
            score = score + feature_get features ''levenshtein'' 0 * (10 / 100);
            score = score + feature_get features ''trgm_score'' 0 * (10 / 100);
            score = score + feature_get features ''vec_score'' 0 * (5 / 100);
            score = score + feature_get features ''dm_jaccard'' 0 * (5 / 100);
            score = score + feature_get features ''token_jaccard'' 0 * (5 / 100);
            score = (if feature_get features ''initials_match'' 0 = 1
                     then score + 5 / 100 else score);
            score = (if feature_get features ''is_abbreviation'' 0 = 1
                     then score + 10 / 100 else score);
            score = (if feature_get features ''has_common_variation'' 0 = 1
                     then score + 10 / 100 else score);
            len_ratio = feature_get features ''len_ratio'' 1;
            score = (if len_ratio < 5 / 10 then score * (8 / 10) else score)
        in min (max score 0) 1)"

text \<open>
  The classifier object: \<open>is_trained\<close> and the loaded model. The model is a scikit-learn
  artifact; \<open>self.model.predict_proba(features)[0, 1]\<close> is a function from the vector to
  a probability, or to an exception.
\<close>

record classifier =
  is_trained :: bool
  model :: "(real list \<Rightarrow> error + real) option"

definition predict_proba :: "classifier \<Rightarrow> real list \<Rightarrow> real" where
  "predict_proba clf features =
     (case model clf of
        Some m \<Rightarrow>
          (if is_trained clf
           then (case m features of
                   Inr proba \<Rightarrow> proba
                 | Inl e \<Rightarrow> heuristic_score features)
           else heuristic_score features)
      | None \<Rightarrow> heuristic_score features)"





section \<open>Auxiliary notions and sample inputs\<close>

text \<open>
  \<open>ws_local T\<close>: the text transformation \<open>T\<close> works word by word, leaving every
  whitespace character where it is. \<open>word_tokens w\<close> are the tokens that one
  whitespace-separated word of the raw name contributes before the filters.
\<close>

definition ws_local :: "(string \<Rightarrow> string) \<Rightarrow> bool" where
  "ws_local T \<longleftrightarrow> T [] = [] \<and> (\<forall>u sp v. is_space sp \<longrightarrow> T (u @ sp # v) = T u @ sp # T v)"

definition word_tokens :: "string \<Rightarrow> string list" where
  "word_tokens w = split (expand_abbreviations (replace_disallowed False (lower w)))"

text \<open>The invariant of the payee dict of \<open>union_candidates\<close>: one entry per key, filed under its own id.\<close>

definition keyed :: "(int \<times> payee_data) list \<Rightarrow> bool" where
  "keyed ps \<longleftrightarrow> distinct (map fst ps) \<and> list_all (\<lambda>p. payee_id (snd p) = fst p) ps"

text \<open>A stand-in for Double Metaphone that yields no codes; the canonical string does not depend on the codes.\<close>

definition no_codes :: "string \<Rightarrow> string \<times> string" where
  "no_codes token = ([], [])"

text \<open>
  Two views: trigram finds payees 7 and 3, phonetic finds payees 3 and 5. Payees 7 and 5
  both end with \<open>max_score = 0.8\<close> from one view.
\<close>

definition two_view_hits :: "view_hit list list" where
  "two_view_hits =
     [[(7, 8 / 10, ''trgm:0.800''), (3, 6 / 10, ''trgm:0.600'')],
      [(3, 9 / 10, ''dm:0.900''), (5, 8 / 10, ''dm:0.800'')]]"




section \<open>config.py, db.py: settings and the database session\<close>

text \<open>The fields of \<open>Settings\<close> that the matcher reads.\<close>

record settings =
  embeddings_provider :: string
  embedding_dim :: nat
  rerank_provider :: string
  openai_api_key :: "string option"
  topk_trigram :: int
  topk_vector :: int
  topk_phonetic :: int
  k_union :: int
  t_high :: real
  t_low :: real
  batch_workers :: int
  batch_chunk_size :: int

text \<open>
  A row of table \<open>payees\<close>, with the columns that \<open>_match_one_internal\<close> selects. The
  ingestion code always writes the name columns from \<open>canonicalize\<close>, so they are not
  optional here; \<open>bq_supplier_id\<close> and the address columns may be NULL.
\<close>

record payee =
  p_payee_id :: int
  p_name_raw :: string
  p_name_canon :: string
  p_name_tokens :: "string list"
  p_dm_codes :: "string list"
  p_bq_supplier_id :: "string option"
  p_address :: "string option"
  p_city :: "string option"
  p_state :: "string option"

text \<open>A scored candidate, as \<open>_match_one_internal\<close> appends it to \<open>scored_candidates\<close>.\<close>

record scored_candidate =
  s_payee_id :: int
  s_name :: string
  s_bq_supplier_id :: "string option"
  probability :: real
  features :: "(string \<times> real) list"
  top_features :: "(string \<times> real) list"
  s_sources :: "string list"

text \<open>A row of table \<open>review_queue\<close>.\<close>

record review_item =
  q_name_raw :: string
  q_name_canon :: string
  r_candidates :: "scored_candidate list"
  status :: string

text \<open>
  The SQL statements of the matching path. The session keeps the tables and, in
  \<open>executed\<close>, every statement handed to \<open>db.execute\<close> or \<open>db.commit\<close>, in order.
\<close>

datatype statement =
    SelectExact string
  | SelectTrigram string int
  | SelectVector "real list" int
  | SelectPhonetic "string list" int
  | SelectPayee int
  | InsertReview string string "scored_candidate list"
  | Commit

record db =
  payees :: "payee list"
  review_queue :: "review_item list"
  executed :: "statement list"

definition log_statement :: "db \<Rightarrow> statement \<Rightarrow> db" where
  "log_statement d st = d\<lparr>executed := executed d @ [st]\<rparr>"

text \<open>
  What lies outside the repository: whether the engine raises on a statement, the rows
  the engine's trigram, vector and array-overlap searches return, rapidfuzz,
  Double Metaphone, the iteration order of a Python set, float formatting, the LLM, and
  the two process-wide objects loaded at start-up (the classifier and \<open>IDF_CACHE\<close>).
\<close>

record env =
  settings :: settings
  classifier_instance :: classifier
  IDF_CACHE :: "(string \<times> real) list"
  raises :: "db \<Rightarrow> statement \<Rightarrow> bool"
  trigram_rows :: "payee list \<Rightarrow> string \<Rightarrow> int \<Rightarrow> (int \<times> string \<times> real) list"
  vector_rows :: "payee list \<Rightarrow> real list \<Rightarrow> int \<Rightarrow> (int \<times> string \<times> real) list"
  phonetic_rows :: "payee list \<Rightarrow> string list \<Rightarrow> int
                     \<Rightarrow> (int \<times> string \<times> string list option \<times> int option) list"
  doublemetaphone :: "string \<Rightarrow> string \<times> string"
  fuzz_token_set_ratio :: "string \<Rightarrow> string \<Rightarrow> real"
  fuzz_token_sort_ratio :: "string \<Rightarrow> string \<Rightarrow> real"
  fuzz_partial_ratio :: "string \<Rightarrow> string \<Rightarrow> real"
  fuzz_ratio :: "string \<Rightarrow> string \<Rightarrow> real"
  fuzz_partial_token_ratio :: "string \<Rightarrow> string \<Rightarrow> real"
  levenshtein_normalized_distance :: "string \<Rightarrow> string \<Rightarrow> real"
  jaro_winkler_similarity :: "string \<Rightarrow> string \<Rightarrow> real"
  hamming_normalized_distance :: "string \<Rightarrow> string \<Rightarrow> real"
  set_order :: "string list \<Rightarrow> string list"
  format_3f :: "real \<Rightarrow> string"
  format_percent :: "real \<Rightarrow> string"
  llm_reply :: "string \<Rightarrow> string \<Rightarrow> error + (bool \<times> real option)"

text \<open>\<open>limit or settings.topk\<close>: the setting when the argument is \<open>None\<close> or 0.\<close>

definition or_default :: "int option \<Rightarrow> int \<Rightarrow> int" where
  "or_default limit dflt = (case limit of None \<Rightarrow> dflt | Some k \<Rightarrow> if k = 0 then dflt else k)"

section \<open>candidates.py: the views\<close>

text \<open>
  Each view runs its statement inside \<open>try\<close>; the handler logs and returns the empty list.
  The exact view selects a row with \<open>name_canon = :query LIMIT 1\<close>.
\<close>

definition get_exact_match :: "env \<Rightarrow> db \<Rightarrow> string \<Rightarrow> view_hit list \<times> db" where
  "get_exact_match e d query_canon =
     (let st = SelectExact query_canon; d' = log_statement d st in
      if raises e d st then ([], d')
      else (case find (\<lambda>p. p_name_canon p = query_canon) (payees d) of
              Some row \<Rightarrow> ([(p_payee_id row, 1, ''exact:1.000'')], d')
            | None \<Rightarrow> ([], d')))"

definition get_trigram_candidates :: "env \<Rightarrow> db \<Rightarrow> string \<Rightarrow> int option \<Rightarrow> view_hit list \<times> db" where
  "get_trigram_candidates e d query_canon limit =
     (let limit = or_default limit (topk_trigram (settings e));
          st = SelectTrigram query_canon limit; d' = log_statement d st in
      if raises e d st then ([], d')
      else (map (\<lambda>(pid, name, score). (pid, score, ''trgm:'' @ format_3f e score))
              (trigram_rows e (payees d) query_canon limit), d'))"

text \<open>
  \<open>utils.get_embedding(text)\<close>: empty text yields the zero vector. For any other text the
  function reaches \<open>db.execute(text("""SELECT ..."""), ...)\<close>, where \<open>text\<close> is the function's
  own string parameter, not \<open>sqlalchemy.text\<close>: calling a \<open>str\<close> raises \<open>TypeError\<close> before
  any statement is executed, and nothing in \<open>get_embedding\<close> catches it.
\<close>

definition get_embedding :: "env \<Rightarrow> string \<Rightarrow> error + real list" where
  "get_embedding e txt =
     (if txt = [] then Inr (replicate (embedding_dim (settings e)) 0) else Inl TypeError)"

text \<open>\<open>get_vector_candidates\<close> calls \<open>get_embedding\<close> outside its \<open>try\<close>.\<close>

definition get_vector_candidates ::
    "env \<Rightarrow> db \<Rightarrow> string \<Rightarrow> int option \<Rightarrow> (error + view_hit list) \<times> db" where
  "get_vector_candidates e d query_canon limit =
     (let limit = or_default limit (topk_vector (settings e)) in
      case get_embedding e query_canon of
        Inl err \<Rightarrow> (Inl err, d)
      | Inr query_vec \<Rightarrow>
          if length query_vec = 0 then (Inr [], d)
          else
            let st = SelectVector query_vec limit; d' = log_statement d st in
            if raises e d st then (Inr [], d')
            else (Inr (map (\<lambda>(pid, name, cos_sim). (pid, cos_sim, ''vec:'' @ format_3f e cos_sim))
                         (vector_rows e (payees d) query_vec limit)), d'))"

text \<open>
  The loop body of \<open>get_phonetic_candidates\<close> for one row
  \<open>(payee_id, name_canon, dm_codes, overlap_count)\<close>: the Jaccard similarity of the two
  code sets, when the overlap count is truthy and both sets are non-empty.
\<close>

definition phonetic_hit ::
    "env \<Rightarrow> string list \<Rightarrow> int \<times> string \<times> string list option \<times> int option \<Rightarrow> view_hit list" where
  "phonetic_hit e codes row =
     (case row of (pid, name, row_codes, overlap_count) \<Rightarrow>
        if overlap_count = None \<or> overlap_count = Some 0 then []
        else
          let payee_codes = (case row_codes of None \<Rightarrow> {} | Some cs \<Rightarrow> set cs);
              query_codes = set codes in
          if payee_codes \<noteq> {} \<and> query_codes \<noteq> {} then
            let intersection = card (payee_codes \<inter> query_codes);
                union = card (payee_codes \<union> query_codes);
                jaccard = (if union > 0 then real intersection / real union else 0)
            in [(pid, jaccard, ''dm:'' @ format_3f e jaccard)]
          else [])"

definition get_phonetic_candidates ::
    "env \<Rightarrow> db \<Rightarrow> canon_data \<Rightarrow> int option \<Rightarrow> view_hit list \<times> db" where
  "get_phonetic_candidates e d query_data limit =
     (let limit = or_default limit (topk_phonetic (settings e));
          codes = dm_codes query_data in
      if codes = [] then ([], d)
      else
        let st = SelectPhonetic codes limit; d' = log_statement d st in
        if raises e d st then ([], d')
        else
          let candidates = concat (map (phonetic_hit e codes)
                                     (phonetic_rows e (payees d) codes limit));
              candidates = sorted_reverse (\<lambda>x. fst (snd x)) candidates
          in (slice_to limit candidates, d'))"

text \<open>
  \<open>get_candidates\<close>. An exact hit returns at once with a single candidate; otherwise the
  non-empty view lists are collected and unioned. The vector view runs unless
  \<open>embeddings_provider\<close> is \<open>none\<close>, and its exception is not caught here.
\<close>

definition exact_candidate :: "view_hit \<Rightarrow> candidate" where
  "exact_candidate hit =
     \<lparr>payee_id = fst hit, scores = [(''exact'', 1)], sources = [snd (snd hit)],
      max_score = 1, avg_score = 1, num_sources = 1\<rparr>"

definition get_candidates :: "env \<Rightarrow> db \<Rightarrow> string \<Rightarrow> (error + candidate list) \<times> db" where
  "get_candidates e d query_name =
     (let query_data = canonicalize (doublemetaphone e) query_name;
          query_canon = canon query_data in
      if query_canon = [] then (Inr [], d)
      else
        case get_exact_match e d query_canon of (exact, d) \<Rightarrow>
        if exact \<noteq> [] then (Inr [exact_candidate (hd exact)], d)
        else
          case get_trigram_candidates e d query_canon None of (trigram, d) \<Rightarrow>
          let candidates_lists = (if trigram \<noteq> [] then [trigram] else []) in
          case (if embeddings_provider (settings e) \<noteq> ''none''
                then get_vector_candidates e d query_canon None
                else (Inr [], d)) of
            (Inl err, d) \<Rightarrow> (Inl err, d)
          | (Inr vector, d) \<Rightarrow>
              let candidates_lists =
                    (if vector \<noteq> [] then candidates_lists @ [vector] else candidates_lists) in
              case get_phonetic_candidates e d query_data None of (phonetic, d) \<Rightarrow>
              let candidates_lists =
                    (if phonetic \<noteq> [] then candidates_lists @ [phonetic] else candidates_lists)
              in (Inr (union_candidates candidates_lists None (k_union (settings e))), d))"

section \<open>features.py\<close>

text \<open>
  Python's \<open>/\<close> raises \<open>ZeroDivisionError\<close> on a zero divisor, where HOL's division
  returns 0; \<open>py_div\<close> keeps the exception, and \<open>and_then\<close> passes a result on or
  propagates the exception.
\<close>

definition py_div :: "real \<Rightarrow> real \<Rightarrow> error + real" where
  "py_div a b = (if b = 0 then Inl ZeroDivisionError else Inr (a / b))"

definition and_then :: "error + 'a \<Rightarrow> ('a \<Rightarrow> error + 'b) \<Rightarrow> error + 'b" where
  "and_then m f = (case m of Inl err \<Rightarrow> Inl err | Inr v \<Rightarrow> f v)"

text \<open>\<open>canonicalize.extract_initials\<close>; \<open>isalpha\<close> on the ASCII range is a letter.\<close>

definition is_alpha :: "char \<Rightarrow> bool" where
  "is_alpha c \<longleftrightarrow> is_lower c \<or> is_upper c"

definition extract_initials :: "string list \<Rightarrow> string" where
  "extract_initials tokens_list =
     concat (map (\<lambda>token. if token \<noteq> [] \<and> is_alpha (hd token) then [upper_char (hd token)] else [])
               tokens_list)"

text \<open>
  The loop of \<open>check_abbreviation\<close>: every character of \<open>shorter\<close> other than a blank is
  searched in what is left of \<open>longer\<close>; \<open>rest\<close> is \<open>longer[j:]\<close>.
\<close>

fun in_order :: "string \<Rightarrow> string \<Rightarrow> bool" where
  "in_order [] rest = True"
| "in_order (c # cs) rest =
     (if c = CHR '' '' then in_order cs rest
      else (case dropWhile (\<lambda>x. x \<noteq> c) rest of
              [] \<Rightarrow> False
            | _ # rest' \<Rightarrow> in_order cs rest'))"

definition check_abbreviation :: "string \<Rightarrow> string \<Rightarrow> real" where
  "check_abbreviation text1 text2 =
     (if length text1 = length text2 then 0
      else
        let shorter = (if length text1 < length text2 then text1 else text2);
            longer = (if length text1 < length text2 then text2 else text1) in
        if real (length shorter) > real (length longer) * (5 / 10) then 0
        else if in_order shorter longer then 1 else 0)"

text \<open>
  \<open>str.replace(old, new)\<close> for a non-empty \<open>old\<close>: the leftmost occurrences, not
  overlapping. \<open>skip\<close> counts the characters of a replaced occurrence still to be passed.
\<close>

fun replace_from :: "string \<Rightarrow> string \<Rightarrow> nat \<Rightarrow> string \<Rightarrow> string" where
  "replace_from old new skip [] = []"
| "replace_from old new (Suc k) (c # cs) = replace_from old new k cs"
| "replace_from old new 0 (c # cs) =
     (if take (length old) (c # cs) = old
      then new @ replace_from old new (length old - 1) cs
      else c # replace_from old new 0 cs)"

definition replace :: "string \<Rightarrow> string \<Rightarrow> string \<Rightarrow> string" where
  "replace s old new = replace_from old new 0 s"

definition variations :: "(string \<times> string) list" where
  "variations =
    [(''and'', ''&''),
     (''corporation'', ''corp''),
     (''incorporated'', ''inc''),
     (''limited'', ''ltd''),
     (''company'', ''co''),
     (''international'', ''intl''),
     (''national'', ''natl''),
     (''associates'', ''assoc''),
     (''management'', ''mgmt''),
     (''services'', ''svcs'')]"

definition check_common_variations :: "string \<Rightarrow> string \<Rightarrow> real" where
  "check_common_variations text1 text2 =
     (let t1 = '' '' @ lower text1 @ '' '';
          t2 = '' '' @ lower text2 @ '' '' in
      if list_ex (\<lambda>(long_form, short_form).
            strip (replace t1 ('' '' @ long_form @ '' '') ('' '' @ short_form @ '' ''))
            = strip (replace t2 ('' '' @ long_form @ '' '') ('' '' @ short_form @ '' '')))
          variations
      then 1 else 0)"

text \<open>
  The phonetic block and the token block of \<open>compute_features\<close> have the same shape:
  for two sets, the Jaccard similarity, the overlap count and the overlap ratio, or
  three zeros when one of the sets is empty.
\<close>

definition overlap_block :: "string set \<Rightarrow> string set \<Rightarrow> error + (real \<times> real \<times> real)" where
  "overlap_block q c =
     (if q \<noteq> {} \<and> c \<noteq> {} then
        let intersection = card (q \<inter> c);
            union = card (q \<union> c) in
        and_then (if union > 0 then py_div (real intersection) (real union) else Inr 0)
          (\<lambda>jaccard.
        and_then (py_div (real intersection) (real (card q)))
          (\<lambda>overlap_ratio. Inr (jaccard, real intersection, overlap_ratio)))
      else Inr (0, 0, 0))"

definition idf_get :: "(string \<times> real) list \<Rightarrow> string \<Rightarrow> real" where
  "idf_get cache token = (case map_of cache token of None \<Rightarrow> 0 | Some v \<Rightarrow> v)"

definition idf_overlap_block :: "(string \<times> real) list \<Rightarrow> string set \<Rightarrow> string set \<Rightarrow> error + real" where
  "idf_overlap_block cache q c =
     (if cache \<noteq> [] \<and> q \<noteq> {} \<and> c \<noteq> {} then
        let idf_sum = sum (idf_get cache) (q \<inter> c);
            max_idf_sum = sum (idf_get cache) q in
        if max_idf_sum > 0 then py_div idf_sum max_idf_sum else Inr 0
      else Inr 0)"

text \<open>
  \<open>compute_features(query_name, candidate_record, candidate_scores)\<close>. The result is the
  pair of the feature vector, in the order of the sorted keys, and the feature dict, in
  insertion order. \<open>list(q_tokens)\<close> lists a set in the order Python iterates it.
\<close>

definition compute_features ::
    "env \<Rightarrow> string \<Rightarrow> payee \<Rightarrow> (string \<times> real) list
       \<Rightarrow> error + (real list \<times> (string \<times> real) list)" where
  "compute_features e query_name candidate_record candidate_scores =
     (let q_data = canonicalize (doublemetaphone e) query_name;
          q_canon = canon q_data;
          q_tokens = set (tokens q_data);
          q_dm = set (dm_codes q_data);
          c_canon = p_name_canon candidate_record;
          c_tokens = set (p_name_tokens candidate_record);
          c_dm = set (p_dm_codes candidate_record);
          c_raw = p_name_raw candidate_record in
      and_then (py_div (fuzz_token_set_ratio e q_canon c_canon) 100) (\<lambda>token_set_ratio.
      and_then (py_div (fuzz_token_sort_ratio e q_canon c_canon) 100) (\<lambda>token_sort_ratio.
      and_then (py_div (fuzz_partial_ratio e q_canon c_canon) 100) (\<lambda>partial_ratio.
      and_then (py_div (fuzz_ratio e q_canon c_canon) 100) (\<lambda>ratio.
      and_then (py_div (fuzz_partial_token_ratio e q_canon c_canon) 100) (\<lambda>partial_token_ratio.
      let levenshtein = 1 - levenshtein_normalized_distance e q_canon c_canon;
          jaro_winkler = jaro_winkler_similarity e q_canon c_canon;
          hamming = 1 - hamming_normalized_distance e q_canon c_canon;
          score_of = (\<lambda>view. case map_of candidate_scores view of None \<Rightarrow> 0 | Some v \<Rightarrow> v);
          trgm_score = (if candidate_scores \<noteq> [] then score_of ''trgm'' else 0);
          vec_score = (if candidate_scores \<noteq> [] then score_of ''vec'' else 0);
          dm_score = (if candidate_scores \<noteq> [] then score_of ''dm'' else 0);
          n_sources = (if candidate_scores \<noteq> []
                       then real (length (filter (\<lambda>v. v > 0) (map snd candidate_scores)))
                       else 0) in
      and_then (overlap_block q_dm c_dm) (\<lambda>(dm_jaccard, dm_overlap_count, dm_overlap_ratio).
      and_then (overlap_block q_tokens c_tokens)
        (\<lambda>(token_jaccard, token_overlap_count, token_overlap_ratio).
      let len_diff_abs = \<bar>real (length q_canon) - real (length c_canon)\<bar> in
      and_then (py_div (real (min (length q_canon) (length c_canon)))
                       (real (max (max (length q_canon) (length c_canon)) 1))) (\<lambda>len_ratio.
      let token_count_diff = \<bar>real (card q_tokens) - real (card c_tokens)\<bar> in
      and_then (py_div (real (min (card q_tokens) (card c_tokens)))
                       (real (max (max (card q_tokens) (card c_tokens)) 1))) (\<lambda>token_count_ratio.
      and_then (idf_overlap_block (IDF_CACHE e) q_tokens c_tokens) (\<lambda>idf_overlap.
      let q_initials = extract_initials (set_order e (tokens q_data));
          c_initials = extract_initials (set_order e (p_name_tokens candidate_record));
          initials_match = (if q_initials = c_initials then 1 else 0);
          is_abbreviation = check_abbreviation q_canon c_canon;
          has_common_variation = check_common_variations q_canon c_canon;
          exact_match = (if q_canon = c_canon then 1 else 0);
          exact_match_raw = (if strip (lower query_name) = strip (lower c_raw) then 1 else 0);
          feature_dict =
            [(''token_set_ratio'', token_set_ratio), (''token_sort_ratio'', token_sort_ratio),
             (''partial_ratio'', partial_ratio), (''ratio'', ratio),
             (''partial_token_ratio'', partial_token_ratio),
             (''levenshtein'', levenshtein), (''jaro_winkler'', jaro_winkler),
             (''hamming'', hamming),
             (''trgm_score'', trgm_score), (''vec_score'', vec_score),
             (''dm_score'', dm_score), (''num_sources'', n_sources),
             (''dm_jaccard'', dm_jaccard), (''dm_overlap_count'', dm_overlap_count),
             (''dm_overlap_ratio'', dm_overlap_ratio),
             (''token_jaccard'', token_jaccard), (''token_overlap_count'', token_overlap_count),
             (''token_overlap_ratio'', token_overlap_ratio),
             (''len_diff_abs'', len_diff_abs), (''len_ratio'', len_ratio),
             (''token_count_diff'', token_count_diff), (''token_count_ratio'', token_count_ratio),
             (''idf_overlap'', idf_overlap),
             (''initials_match'', initials_match), (''is_abbreviation'', is_abbreviation),
             (''has_common_variation'', has_common_variation),
             (''exact_match'', exact_match), (''exact_match_raw'', exact_match_raw)];
          feature_names = sort (map fst feature_dict);
          feature_vector = map (\<lambda>name. the (map_of feature_dict name)) feature_names
      in Inr (feature_vector, feature_dict))))))))))))"

section \<open>classifier.py: explain\<close>

text \<open>The dict \<open>weights\<close> of \<open>explain\<close>, in insertion order.\<close>

definition explain_weights :: "(string \<times> real) list" where
  "explain_weights =
    [(''token_set_ratio'', 25 / 100),
     (''token_sort_ratio'', 20 / 100),
     (''jaro_winkler'', 15 / 100),
     (''levenshtein'', 10 / 100),
     (''trgm_score'', 10 / 100),
     (''vec_score'', 5 / 100),
     (''dm_jaccard'', 5 / 100),
     (''token_jaccard'', 5 / 100),
     (''exact_match'', 1),
     (''initials_match'', 5 / 100),
     (''is_abbreviation'', 10 / 100),
     (''has_common_variation'', 10 / 100)]"

definition explain :: "real list \<Rightarrow> int \<Rightarrow> (string \<times> real) list" where
  "explain feature_vector top_n =
     (let weighted = filter (\<lambda>(name, contribution). contribution > 0)
                       (map (\<lambda>(name, weight). (name, feature_get feature_vector name 0 * weight))
                          explain_weights);
          weighted = sorted_reverse snd weighted
      in slice_to top_n weighted)"

section \<open>matching.py\<close>

datatype decision = auto_match | needs_review | no_match

record match_result =
  decision :: decision
  confidence :: real
  matched_payee :: "(int \<times> string \<times> string option) option"
  candidates :: "scored_candidate list"
  reason :: "string option"

text \<open>
  The scoring loop of \<open>_match_one_internal\<close>. The row is fetched by \<open>payee_id\<close>, outside
  any \<open>try\<close>; a candidate without a row is skipped.
\<close>

fun score_candidates ::
    "env \<Rightarrow> string \<Rightarrow> candidate list \<Rightarrow> scored_candidate list \<Rightarrow> db
       \<Rightarrow> (error + scored_candidate list) \<times> db" where
  "score_candidates e name_raw [] scored d = (Inr scored, d)"
| "score_candidates e name_raw (cand # rest) scored d =
     (let st = SelectPayee (payee_id cand); d' = log_statement d st in
      if raises e d st then (Inl DbError, d')
      else
        case find (\<lambda>p. p_payee_id p = payee_id cand) (payees d) of
          None \<Rightarrow> score_candidates e name_raw rest scored d'
        | Some payee_record \<Rightarrow>
            (case compute_features e name_raw payee_record (scores cand) of
               Inl err \<Rightarrow> (Inl err, d')
             | Inr (feature_vector, feature_dict) \<Rightarrow>
                 score_candidates e name_raw rest
                   (scored @
                     [\<lparr>s_payee_id = p_payee_id payee_record,
                       s_name = p_name_raw payee_record,
                       s_bq_supplier_id = p_bq_supplier_id payee_record,
                       probability = predict_proba (classifier_instance e) feature_vector,
                       features = feature_dict,
                       top_features = explain feature_vector 3,
                       s_sources = sources cand\<rparr>])
                   d'))"

text \<open>\<open>scored_candidates.sort(key=lambda x: x["probability"], reverse=True)\<close>\<close>

definition sort_by_probability :: "scored_candidate list \<Rightarrow> scored_candidate list" where
  "sort_by_probability scored = sorted_reverse probability scored"

text \<open>
  \<open>rerank_with_llm\<close>. Whatever goes wrong with the LLM is caught and leaves
  \<open>needs_review\<close>; \<open>candidates[0]\<close> on an empty list would raise \<open>IndexError\<close>.
\<close>

definition rerank_with_llm ::
    "env \<Rightarrow> string \<Rightarrow> scored_candidate list \<Rightarrow> error + (decision \<times> real)" where
  "rerank_with_llm e query_name cands =
     (case cands of
        [] \<Rightarrow> Inl IndexError
      | first # _ \<Rightarrow>
          if openai_api_key (settings e) = None \<or> openai_api_key (settings e) = Some []
          then Inr (needs_review, probability first)
          else
            (case llm_reply e query_name (s_name first) of
               Inl err \<Rightarrow> Inr (needs_review, probability first)
             | Inr (same, conf) \<Rightarrow>
                 if same \<and> (case conf of None \<Rightarrow> 0 | Some c \<Rightarrow> c) \<ge> 90 / 100
                 then Inr (auto_match, max (probability first) (the conf))
                 else Inr (needs_review, probability first)))"

text \<open>
  \<open>add_to_review_queue\<close>: the insert and the commit run inside one \<open>try\<close>; an exception
  is logged and the row is not stored.
\<close>

definition add_to_review_queue ::
    "env \<Rightarrow> string \<Rightarrow> string \<Rightarrow> scored_candidate list \<Rightarrow> db \<Rightarrow> db" where
  "add_to_review_queue e name_raw name_canon cands d =
     (let st = InsertReview name_raw name_canon cands; d1 = log_statement d st in
      if raises e d st then d1
      else
        let d2 = log_statement d1 Commit in
        if raises e d1 Commit then d2
        else d2\<lparr>review_queue := review_queue d2 @
                 [\<lparr>q_name_raw = name_raw, q_name_canon = name_canon,
                   r_candidates = cands, status = ''open''\<rparr>]\<rparr>)"

definition match_one_internal :: "env \<Rightarrow> string \<Rightarrow> db \<Rightarrow> (error + match_result) \<times> db" where
  "match_one_internal e name_raw d =
     (let canon_data = canonicalize (doublemetaphone e) name_raw;
          cn = canon canon_data in
      if cn = [] then
        (Inr \<lparr>decision = no_match, confidence = 0, matched_payee = None, candidates = [],
              reason = Some ''Empty or invalid name''\<rparr>, d)
      else
        case get_candidates e d name_raw of
          (Inl err, d) \<Rightarrow> (Inl err, d)
        | (Inr cands, d) \<Rightarrow>
            if cands = [] then
              (Inr \<lparr>decision = no_match, confidence = 0, matched_payee = None, candidates = [],
                    reason = Some ''No candidates found''\<rparr>, d)
            else
              case score_candidates e name_raw cands [] d of
                (Inl err, d) \<Rightarrow> (Inl err, d)
              | (Inr scored, d) \<Rightarrow>
                  let scored = sort_by_probability scored in
                  case scored of
                    [] \<Rightarrow>
                      (Inr \<lparr>decision = no_match, confidence = 0, matched_payee = None,
                            candidates = [], reason = Some ''No viable candidates''\<rparr>, d)
                  | best # _ \<Rightarrow>
                      let conf = probability best;
                          dec = (if conf \<ge> t_high (settings e) then auto_match
                                 else if conf \<ge> t_low (settings e) then needs_review
                                 else no_match) in
                      case (if dec = needs_review \<and> rerank_provider (settings e) = ''openai''
                            then rerank_with_llm e name_raw (slice_to 5 scored)
                            else Inr (dec, conf)) of
                        Inl err \<Rightarrow> (Inl err, d)
                      | Inr (dec, conf) \<Rightarrow>
                          (case dec of
                             auto_match \<Rightarrow>
                               (Inr \<lparr>decision = dec, confidence = conf,
                                     matched_payee =
                                       Some (s_payee_id best, s_name best, s_bq_supplier_id best),
                                     candidates = slice_to 5 scored,
                                     reason = Some (''High confidence match (''
                                                @ format_percent e conf @ '')'')\<rparr>, d)
                           | needs_review \<Rightarrow>
                               (Inr \<lparr>decision = dec, confidence = conf, matched_payee = None,
                                     candidates = slice_to 5 scored,
                                     reason = Some (''Borderline match (''
                                                @ format_percent e conf @ ''), review needed'')\<rparr>,
                                add_to_review_queue e name_raw cn (slice_to 10 scored) d)
                           | no_match \<Rightarrow>
                               (Inr \<lparr>decision = dec, confidence = conf, matched_payee = None,
                                     candidates = slice_to 5 scored,
                                     reason = Some (''Low confidence (''
                                                @ format_percent e conf @ '')'')\<rparr>, d)))"

text \<open>\<open>match_one\<close> opens a session when none is given; creating it executes no statement.\<close>

definition match_one :: "env \<Rightarrow> string \<Rightarrow> db \<Rightarrow> (error + match_result) \<times> db" where
  "match_one e name_raw d = match_one_internal e name_raw d"

section \<open>utils.py, matching.py, routers/match.py: batches\<close>

text \<open>
  \<open>items[i:i + chunk_size] for i in range(0, len(items), chunk_size)\<close>, for a positive
  \<open>chunk_size\<close>.
\<close>

function chunk_list :: "nat \<Rightarrow> 'a list \<Rightarrow> 'a list list" where
  "chunk_list n xs = (if n = 0 \<or> xs = [] then [] else take n xs # chunk_list n (drop n xs))"
  by pat_completeness auto
termination
  by (relation "measure (\<lambda>(n, xs). length xs)") auto

declare chunk_list.simps [simp del]

text \<open>
  \<open>batch_process(items, func, workers, chunk_size)\<close>. Every chunk is submitted to a
  thread pool, and the results are collected with \<open>as_completed\<close>, that is, in the order
  in which the chunks finish. That order is the scheduler's choice: \<open>completion\<close> lists
  the chunk indices in the order of completion (a permutation of \<open>0..<len(chunks)\<close>).
  A chunk whose \<open>func\<close> raised is logged and contributes nothing. \<open>range\<close> raises on a
  step of 0 and is empty on a negative step; the pool refuses \<open>workers \<le> 0\<close>.
\<close>

definition batch_process ::
    "'a list \<Rightarrow> ('a list \<Rightarrow> error + 'b list) \<Rightarrow> int \<Rightarrow> int \<Rightarrow> nat list \<Rightarrow> error + 'b list" where
  "batch_process items func workers chunk_size completion =
     (if chunk_size = 0 then Inl ValueError
      else
        let chunks = (if chunk_size < 0 then [] else chunk_list (nat chunk_size) items) in
        if workers \<le> 0 then Inl ValueError
        else Inr (concat (map (\<lambda>i. case func (chunks ! i) of
                                     Inl err \<Rightarrow> []
                                   | Inr result \<Rightarrow> result) completion)))"

text \<open>
  \<open>process_chunk\<close> of \<open>match_batch\<close> calls \<open>match_one\<close> for each name of the chunk and
  pairs the name (\<open>query\<close>) with the result; an exception of \<open>match_one\<close> ends the chunk.
  The sessions of concurrent chunks interleave; for the number and order of the results
  only the outcome of each call matters, so the outcome of \<open>match_one\<close> on a name is the
  parameter \<open>match_fn\<close>.
\<close>

fun process_chunk :: "(string \<Rightarrow> error + 'r) \<Rightarrow> string list \<Rightarrow> error + (string \<times> 'r) list" where
  "process_chunk match_fn [] = Inr []"
| "process_chunk match_fn (name # chunk) =
     (case match_fn name of
        Inl err \<Rightarrow> Inl err
      | Inr result \<Rightarrow>
          (case process_chunk match_fn chunk of
             Inl err \<Rightarrow> Inl err
           | Inr results \<Rightarrow> Inr ((name, result) # results)))"

definition match_batch ::
    "(string \<Rightarrow> error + 'r) \<Rightarrow> settings \<Rightarrow> string list \<Rightarrow> nat list
       \<Rightarrow> error + (string \<times> 'r) list" where
  "match_batch match_fn st names completion =
     batch_process names (process_chunk match_fn) (batch_workers st) (batch_chunk_size st)
       completion"

text \<open>
  The streaming branch of the batch endpoint: one line per name, in a plain loop. An
  exception of \<open>match_one\<close> ends the stream after the lines already sent.
\<close>

fun stream_results :: "(string \<Rightarrow> error + 'r) \<Rightarrow> string list \<Rightarrow> (string \<times> 'r) list \<times> error option" where
  "stream_results match_fn [] = ([], None)"
| "stream_results match_fn (name # names) =
     (case match_fn name of
        Inl err \<Rightarrow> ([], Some err)
      | Inr result \<Rightarrow>
          (case stream_results match_fn names of
             (lines, err) \<Rightarrow> ((name, result) # lines, err)))"

section \<open>A sample environment and registry\<close>

text \<open>
  The default settings of \<open>config.py\<close>; the heuristic scorer; an engine that never
  raises and whose similarity searches find nothing; and stand-ins for the libraries
  that are right on identical strings, the only pairs the examples hand them.
\<close>

definition default_settings :: settings where
  "default_settings =
     \<lparr>embeddings_provider = ''openai'', embedding_dim = 1024, rerank_provider = ''none'',
      openai_api_key = None, topk_trigram = 50, topk_vector = 50, topk_phonetic = 50,
      k_union = 120, t_high = 97 / 100, t_low = 60 / 100,
      batch_workers = 8, batch_chunk_size = 1000\<rparr>"

definition sample_env :: env where
  "sample_env =
     \<lparr>settings = default_settings,
      classifier_instance = \<lparr>is_trained = False, model = None\<rparr>,
      IDF_CACHE = [],
      raises = (\<lambda>d st. False),
      trigram_rows = (\<lambda>rows q k. []),
      vector_rows = (\<lambda>rows v k. []),
      phonetic_rows = (\<lambda>rows codes k. []),
      doublemetaphone = no_codes,
      fuzz_token_set_ratio = (\<lambda>a b. if a = b then 100 else 0),
      fuzz_token_sort_ratio = (\<lambda>a b. if a = b then 100 else 0),
      fuzz_partial_ratio = (\<lambda>a b. if a = b then 100 else 0),
      fuzz_ratio = (\<lambda>a b. if a = b then 100 else 0),
      fuzz_partial_token_ratio = (\<lambda>a b. if a = b then 100 else 0),
      levenshtein_normalized_distance = (\<lambda>a b. if a = b then 0 else 1),
      jaro_winkler_similarity = (\<lambda>a b. if a = b then 1 else 0),
      hamming_normalized_distance = (\<lambda>a b. if a = b then 0 else 1),
      set_order = remdups,
      format_3f = (\<lambda>x. []),
      format_percent = (\<lambda>x. []),
      llm_reply = (\<lambda>a b. Inl ModelError)\<rparr>"

text \<open>The same environment with a learned model in place that scores every vector 0.5.\<close>

definition trained_env :: env where
  "trained_env =
     sample_env\<lparr>classifier_instance := \<lparr>is_trained = True, model = Some (\<lambda>fs. Inr (1 / 2))\<rparr>\<rparr>"

definition acme_row :: payee where
  "acme_row =
     \<lparr>p_payee_id = 1, p_name_raw = ''Acme Plumbing Inc'', p_name_canon = ''acme plumbing'',
      p_name_tokens = [''acme'', ''plumbing''], p_dm_codes = [],
      p_bq_supplier_id = None, p_address = None, p_city = None, p_state = None\<rparr>"

definition sample_db :: db where
  "sample_db = \<lparr>payees = [acme_row], review_queue = [], executed = []\<rparr>"


section \<open>Theorems\<close>

lemma get_feature_names_eq:
  "get_feature_names =
    [''dm_jaccard'', ''dm_overlap_count'', ''dm_overlap_ratio'', ''dm_score'',
     ''exact_match'', ''exact_match_raw'', ''hamming'', ''has_common_variation'',
     ''idf_overlap'', ''initials_match'', ''is_abbreviation'', ''jaro_winkler'',
     ''len_diff_abs'', ''len_ratio'', ''levenshtein'', ''num_sources'',
     ''partial_ratio'', ''partial_token_ratio'', ''ratio'', ''token_count_diff'',
     ''token_count_ratio'', ''token_jaccard'', ''token_overlap_count'',
     ''token_overlap_ratio'', ''token_set_ratio'', ''token_sort_ratio'',
     ''trgm_score'', ''vec_score'']"
  unfolding get_feature_names_def feature_names_src_def by code_simp

subsection \<open>The heuristic scorer\<close>

lemma clamp_unit_interval: "0 \<le> min (max (s::real) 0) 1 \<and> min (max s 0) 1 \<le> 1"
  by simp

lemma heuristic_score_bounds: "0 \<le> heuristic_score fs \<and> heuristic_score fs \<le> 1"
proof (cases "feature_get fs ''exact_match'' 0 = 1")
  case True
  then show ?thesis by (simp add: heuristic_score_def)
next
  case False
  then show ?thesis unfolding heuristic_score_def Let_def
    by (simp only: if_False clamp_unit_interval simp_thms)
qed

lemma heuristic_score_exact: "feature_get fs ''exact_match'' 0 = 1 \<Longrightarrow> heuristic_score fs = 99 / 100"
  by (simp add: heuristic_score_def)








subsection \<open>Character classes\<close>

lemma is_space_code:
  "is_space c \<Longrightarrow> (of_char c :: nat) \<in> {9, 10, 11, 12, 13, 28, 29, 30, 31, 32}"
  by (auto simp: is_space_def)

lemma is_lower_code: "is_lower c \<longleftrightarrow> 97 \<le> (of_char c :: nat) \<and> (of_char c :: nat) \<le> 122"
  by (simp add: is_lower_def less_eq_char_def)

lemma is_upper_code: "is_upper c \<longleftrightarrow> 65 \<le> (of_char c :: nat) \<and> (of_char c :: nat) \<le> 90"
  by (simp add: is_upper_def less_eq_char_def)

lemma is_digit_code: "is_digit c \<longleftrightarrow> 48 \<le> (of_char c :: nat) \<and> (of_char c :: nat) \<le> 57"
  by (simp add: is_digit_def less_eq_char_def)

lemma space_not_word: "is_space c \<Longrightarrow> \<not> is_word c"
  by (auto simp: is_word_def is_lower_code is_upper_code is_digit_code dest!: is_space_code)

lemma space_allowed: "is_space c \<Longrightarrow> allowed c"
  by (simp add: allowed_def)

lemma of_char_lower_char:
  "is_upper c \<Longrightarrow> (of_char (lower_char c) :: nat) = of_char c + 32"
  by (simp add: lower_char_def is_upper_code)

lemma is_space_lower_char: "is_space (lower_char c) = is_space c"
proof (cases "is_upper c")
  case True
  then have "\<not> is_space c" by (auto simp: is_upper_code dest!: is_space_code)
  moreover have "\<not> is_space (lower_char c)"
    using True of_char_lower_char [OF True] by (auto simp: is_upper_code dest!: is_space_code)
  ultimately show ?thesis by simp
next
  case False
  then show ?thesis by (simp add: lower_char_def)
qed


subsection \<open>split\<close>

lemma split_acc_spaces:
  "\<forall>c\<in>set ws. is_space c \<Longrightarrow> split_acc acc ws = (if acc = [] then [] else [rev acc])"
  by (induction ws arbitrary: acc) auto

lemma split_acc_no_space:
  "\<forall>c\<in>set s. \<not> is_space c \<Longrightarrow>
     split_acc acc s = (if acc = [] \<and> s = [] then [] else [rev acc @ s])"
  by (induction s arbitrary: acc) auto

lemma split_acc_append_space:
  "is_space sp \<Longrightarrow> split_acc acc (a @ sp # b) = split_acc acc a @ split_acc [] b"
  by (induction a arbitrary: acc) auto

lemma split_acc_append_spaces:
  "\<forall>c\<in>set ws. is_space c \<Longrightarrow> split_acc acc (a @ ws) = split_acc acc a"
  by (induction a arbitrary: acc) (auto simp: split_acc_spaces)

lemma split_dropWhile: "split (dropWhile is_space s) = split s"
  by (induction s) (auto simp: split_def)

lemma split_strip: "split (strip s) = split s"
proof -
  let ?d = "dropWhile is_space s"
  have "rev (dropWhile is_space (rev ?d)) @ rev (takeWhile is_space (rev ?d)) = ?d"
    by (metis rev_append rev_rev_ident takeWhile_dropWhile_id)
  moreover have "\<forall>c\<in>set (rev (takeWhile is_space (rev ?d))). is_space c"
    by (auto dest: set_takeWhileD)
  ultimately have "split (strip s) = split ?d"
    unfolding split_def strip_def by (metis split_acc_append_spaces)
  then show ?thesis by (simp add: split_dropWhile)
qed

lemma split_Nil [simp]: "split [] = []"
  by (simp add: split_def)

lemma split_no_space:
  "\<forall>c\<in>set s. \<not> is_space c \<Longrightarrow> split s = (if s = [] then [] else [s])"
  by (simp add: split_def split_acc_no_space)

lemma split_append_space:
  "is_space sp \<Longrightarrow> split (a @ sp # b) = split a @ split b"
  by (simp add: split_def split_acc_append_space)

lemma split_acc_lower:
  "split_acc (map lower_char acc) (map lower_char s) = map (map lower_char) (split_acc acc s)"
proof (induction s arbitrary: acc)
  case Nil
  then show ?case by (simp add: rev_map)
next
  case (Cons c cs)
  show ?case using Cons [of "[]"] Cons [of "c # acc"]
    by (simp add: is_space_lower_char rev_map)
qed

lemma split_lower: "split (lower s) = map lower (split s)"
  using split_acc_lower [of "[]" s] by (simp add: split_def lower_def)



subsection \<open>Transformations that work word by word\<close>


lemma ws_local_comp: "ws_local S \<Longrightarrow> ws_local T \<Longrightarrow> ws_local (\<lambda>s. T (S s))"
  by (simp add: ws_local_def)

lemma split_by_word:
  assumes "ws_local T"
  shows "split (T s) = concat (map (\<lambda>w. split (T w)) (split s))"
proof (induction s rule: measure_induct_rule [where f = length])
  case (less s)
  show ?case
  proof (cases "\<exists>c\<in>set s. is_space c")
    case True
    then obtain u sp v where s: "s = u @ sp # v" and sp: "is_space sp"
      and u: "\<forall>c\<in>set u. \<not> is_space c"
      using split_list_first_prop [of s is_space] by blast
    have "length v < length s" using s by simp
    then have ih: "split (T v) = concat (map (\<lambda>w. split (T w)) (split v))" by (rule less)
    have "split (T s) = split (T u) @ split (T v)"
      using assms sp by (simp add: s ws_local_def split_append_space)
    moreover have "split s = split u @ split v"
      using sp by (simp add: s split_append_space)
    moreover have "split (T u) = concat (map (\<lambda>w. split (T w)) (split u))"
      using assms u by (simp add: split_no_space ws_local_def)
    ultimately show ?thesis using ih by simp
  next
    case False
    then show ?thesis using assms by (simp add: split_no_space ws_local_def)
  qed
qed

lemma replace_disallowed_local:
  "is_space sp \<Longrightarrow>
     replace_disallowed b (u @ sp # v) = replace_disallowed b u @ sp # replace_disallowed False v"
  by (induction u arbitrary: b) (auto simp: space_allowed)

lemma sub_words_local:
  "\<not> is_word sp \<Longrightarrow> sub_words f acc (u @ sp # v) = sub_words f acc u @ sp # sub_words f [] v"
  by (induction u arbitrary: acc) auto

lemma ws_local_replace_disallowed: "ws_local (replace_disallowed False)"
  by (simp add: ws_local_def replace_disallowed_local)

lemma ws_local_sub_word_boundary: "abbr \<noteq> [] \<Longrightarrow> ws_local (sub_word_boundary abbr full)"
  by (simp add: ws_local_def sub_word_boundary_def sub_words_local space_not_word)

lemma ws_local_fold:
  "\<forall>p\<in>set ps. fst p \<noteq> [] \<Longrightarrow>
     ws_local (\<lambda>s. fold (\<lambda>(abbr, full) text. sub_word_boundary abbr full text) ps s)"
proof (induction ps)
  case Nil
  then show ?case by (simp add: ws_local_def)
next
  case (Cons p ps)
  obtain a f where p: "p = (a, f)" by (cases p)
  have 1: "ws_local (sub_word_boundary a f)"
    using Cons.prems p by (simp add: ws_local_sub_word_boundary)
  have 2: "ws_local (\<lambda>s. fold (\<lambda>(abbr, full) text. sub_word_boundary abbr full text) ps s)"
    using Cons by simp
  show ?case using ws_local_comp [OF 1 2] by (simp add: p)
qed

lemma ws_local_expand_abbreviations: "ws_local expand_abbreviations"
proof -
  have "\<forall>p\<in>set ABBREVIATIONS. fst p \<noteq> []" by (simp add: ABBREVIATIONS_def)
  from ws_local_fold [OF this] show ?thesis
    unfolding expand_abbreviations_def [abs_def] .
qed



lemma pipeline_tokens_by_word:
  "split (expand_abbreviations (replace_disallowed False (remove_diacritics (strip (lower x)))))
     = concat (map word_tokens (split x))"
proof -
  let ?T = "\<lambda>s. expand_abbreviations (replace_disallowed False s)"
  have loc: "ws_local ?T"
    by (rule ws_local_comp [OF ws_local_replace_disallowed ws_local_expand_abbreviations])
  have "split (?T (strip (lower x))) = concat (map (\<lambda>w. split (?T w)) (split (strip (lower x))))"
    by (rule split_by_word [OF loc])
  also have "split (strip (lower x)) = map lower (split x)"
    by (simp add: split_strip split_lower)
  finally show ?thesis
    by (simp add: remove_diacritics_def word_tokens_def [abs_def] comp_def)
qed

lemma raw_tokens_by_word:
  "raw_tokens x = handle_special_cases
     (filter (\<lambda>t. t \<notin> set GENERIC_WORDS \<and> t \<notin> set CORPORATE_SUFFIXES)
        (concat (map word_tokens (split x))))"
  unfolding raw_tokens_def Let_def pipeline_tokens_by_word ..

lemma strip_empty_split: "strip x = [] \<Longrightarrow> split x = []"
  using split_strip [of x] by simp

lemma tokens_canonicalize:
  "tokens (canonicalize dm x) = sort (remdups (filter (\<lambda>t. t \<noteq> []) (raw_tokens x)))"
proof (cases "x = [] \<or> strip x = []")
  case True
  then have "split x = []" by (auto dest: strip_empty_split)
  then have "raw_tokens x = []" by (simp add: raw_tokens_by_word handle_special_cases_def)
  then show ?thesis using True by (simp add: canonicalize_def)
next
  case False
  then show ?thesis by (simp add: canonicalize_def Let_def)
qed

lemma canon_canonicalize: "canon (canonicalize dm x) = join (tokens (canonicalize dm x))"
  by (simp add: canonicalize_def Let_def)






subsection \<open>Python's stable descending sort\<close>

lemma mset_sorted_reverse: "mset (sorted_reverse f xs) = mset xs"
  by (simp add: sorted_reverse_def)

lemma sorted_reverse_desc: "sorted_wrt (\<lambda>a b. f a \<ge> f b) (sorted_reverse f xs)"
proof -
  have "sorted (map f (sort_key f (rev xs)))" by simp
  then have "sorted_wrt (\<lambda>a b. f a \<le> f b) (sort_key f (rev xs))"
    by (simp add: sorted_map)
  then show ?thesis
    unfolding sorted_reverse_def by (simp add: sorted_wrt_rev)
qed

lemma sorted_reverse_stable:
  "filter (\<lambda>x. f x = k) (sorted_reverse f xs) = filter (\<lambda>x. f x = k) xs"
  unfolding sorted_reverse_def
  by (simp add: rev_filter [symmetric] sort_key_stable)

subsection \<open>The candidate union\<close>

lemma map_fst_dict_set:
  "map fst (dict_set d k v) = (if k \<in> fst ` set d then map fst d else map fst d @ [k])"
  by (induction d k v rule: dict_set.induct) auto

lemma set_dict_set:
  "distinct (map fst d) \<Longrightarrow> set (dict_set d k v) = {p \<in> set d. fst p \<noteq> k} \<union> {(k, v)}"
  by (induction d k v rule: dict_set.induct) (auto simp: rev_image_eqI)

lemma map_of_dict_set: "map_of (dict_set d k v) = (map_of d)(k \<mapsto> v)"
  by (induction d k v rule: dict_set.induct) auto

lemma keyed_dict_set:
  "keyed ps \<Longrightarrow> payee_id d = k \<Longrightarrow> keyed (dict_set ps k d)"
  unfolding keyed_def list_all_iff
  by (auto simp: map_fst_dict_set set_dict_set)

lemma keyed_map_of: "keyed ps \<Longrightarrow> map_of ps k = Some d \<Longrightarrow> payee_id d = k"
  unfolding keyed_def list_all_iff by (auto dest!: map_of_SomeD)

lemma keyed_add_hit:
  assumes k: "keyed ps"
  shows "keyed (add_hit ps hit)"
proof -
  obtain pid score source where h: "hit = (pid, score, source)" by (cases hit) auto
  show ?thesis
  proof (cases "map_of ps pid")
    case None
    have k1: "keyed (dict_set ps pid \<lparr>payee_id = pid, scores = [], sources = []\<rparr>)"
      by (rule keyed_dict_set [OF k]) simp
    show ?thesis using None h
      by (simp add: add_hit_def Let_def map_of_dict_set keyed_dict_set [OF k1])
  next
    case (Some d)
    then have "payee_id d = pid" using k by (rule keyed_map_of [rotated])
    then show ?thesis using Some h k
      by (simp add: add_hit_def Let_def keyed_dict_set)
  qed
qed

lemma keyed_fold_hits: "keyed ps \<Longrightarrow> keyed (fold (\<lambda>hit ps. add_hit ps hit) hits ps)"
  by (induction hits arbitrary: ps) (simp_all add: keyed_add_hit)

lemma keyed_fold_lists:
  "keyed ps \<Longrightarrow>
     keyed (fold (\<lambda>candidates ps. fold (\<lambda>hit ps. add_hit ps hit) candidates ps) ls ps)"
  by (induction ls arbitrary: ps) (simp_all add: keyed_fold_hits)

lemma keyed_aggregate_hits: "keyed (aggregate_hits ls)"
  unfolding aggregate_hits_def by (rule keyed_fold_lists) (simp add: keyed_def)

lemma payee_id_with_aggregates: "payee_id (with_aggregates d) = payee_id d"
  by (simp add: with_aggregates_def Let_def payee_data.extend_def payee_data.defs)

text \<open>The union holds each payee once.\<close>

lemma distinct_merged_payees: "distinct (map payee_id (merged_payees ls))"
proof -
  have "map payee_id (merged_payees ls) = map fst (aggregate_hits ls)"
    using keyed_aggregate_hits [of ls]
    by (auto simp: merged_payees_def dict_values_def keyed_def list_all_iff
        payee_id_with_aggregates)
  then show ?thesis using keyed_aggregate_hits [of ls] by (simp add: keyed_def)
qed

lemma merged_two_view_hits:
  "merged_payees two_view_hits =
    [\<lparr>payee_id = 7, scores = [(''trgm'', 8 / 10)], sources = [''trgm:0.800''],
        max_score = 8 / 10, avg_score = 8 / 10, num_sources = 1\<rparr>,
     \<lparr>payee_id = 3, scores = [(''trgm'', 6 / 10), (''dm'', 9 / 10)],
        sources = [''trgm:0.600'', ''dm:0.900''],
        max_score = 9 / 10, avg_score = 3 / 4, num_sources = 2\<rparr>,
     \<lparr>payee_id = 5, scores = [(''dm'', 8 / 10)], sources = [''dm:0.800''],
        max_score = 8 / 10, avg_score = 8 / 10, num_sources = 1\<rparr>]"
  by (simp add: merged_payees_def two_view_hits_def aggregate_hits_def add_hit_def
      dict_values_def with_aggregates_def source_type_def max_list_def
      payee_data.extend_def Let_def)

text \<open>
  Claim C6, as stated, fails in its tie-break: payees 7 and 5 tie on \<open>max_score\<close> and
  \<open>num_sources\<close>, and the union returns 7 before 5, the order in which the views
  produced them, not ascending \<open>payee_id\<close>.
\<close>

theorem union_candidates_tie_not_by_payee_id:
  "map (\<lambda>c. (payee_id c, max_score c, num_sources c)) (union_candidates two_view_hits None 120)
     = [(3, 9 / 10, 2), (7, 8 / 10, 1), (5, 8 / 10, 1)]"
  by (simp add: union_candidates_def merged_two_view_hits effective_k_def slice_to_def
      sorted_reverse_def)

text \<open>
  Claim C6, amended: for a \<open>K_union\<close> that is not negative the union returns the first \<open>K_union\<close>
  entries of a list \<open>full\<close> that is a rearrangement of the merged payees, ordered by
  \<open>max_score\<close> descending and then \<open>num_sources\<close> descending, in which payees that tie on
  both keep the order in which the views first produced them; so it returns at most
  \<open>K_union\<close> entries.
\<close>

theorem union_candidates_sorted_stable_truncated:
  assumes "0 \<le> effective_k k dflt"
  shows "\<exists>full.
      union_candidates candidates_lists k dflt
        = take (nat (effective_k k dflt)) full
    \<and> mset full = mset (merged_payees candidates_lists)
    \<and> sorted_wrt (\<lambda>a b. max_score b < max_score a
                        \<or> (max_score b = max_score a \<and> num_sources b \<le> num_sources a)) full
    \<and> (\<forall>m n. filter (\<lambda>x. max_score x = m \<and> num_sources x = n) full
             = filter (\<lambda>x. max_score x = m \<and> num_sources x = n)
                 (merged_payees candidates_lists))
    \<and> length (union_candidates candidates_lists k dflt)
        \<le> nat (effective_k k dflt)"
proof -
  let ?key = "\<lambda>x::candidate. (max_score x, num_sources x)"
  let ?full = "sorted_reverse ?key (merged_payees candidates_lists)"
  have 1: "union_candidates candidates_lists k dflt
        = take (nat (effective_k k dflt)) ?full"
    using assms by (simp add: union_candidates_def slice_to_def)
  have 2: "mset ?full = mset (merged_payees candidates_lists)"
    by (rule mset_sorted_reverse)
  have "sorted_wrt (\<lambda>a b. ?key a \<ge> ?key b) ?full" by (rule sorted_reverse_desc)
  then have 3: "sorted_wrt (\<lambda>a b. max_score b < max_score a
                        \<or> (max_score b = max_score a \<and> num_sources b \<le> num_sources a)) ?full"
    by (rule sorted_wrt_mono_rel [rotated]) (auto simp: less_eq_prod_def)
  have 4: "filter (\<lambda>x. max_score x = m \<and> num_sources x = n) ?full
             = filter (\<lambda>x. max_score x = m \<and> num_sources x = n)
                 (merged_payees candidates_lists)" for m n
    using sorted_reverse_stable [of ?key "(m, n)" "merged_payees candidates_lists"] by simp
  have 5: "length (union_candidates candidates_lists k dflt)
        \<le> nat (effective_k k dflt)"
    unfolding 1 by simp
  from 1 2 3 4 5 show ?thesis by blast
qed

theorem union_candidates_sorted_stable_truncated_witness:
  "0 \<le> effective_k None 120
   \<and> (\<exists>full.
      union_candidates two_view_hits None 120 = take (nat (effective_k None 120)) full
    \<and> mset full = mset (merged_payees two_view_hits)
    \<and> sorted_wrt (\<lambda>a b. max_score b < max_score a
                        \<or> (max_score b = max_score a \<and> num_sources b \<le> num_sources a)) full
    \<and> (\<forall>m n. filter (\<lambda>x. max_score x = m \<and> num_sources x = n) full
             = filter (\<lambda>x. max_score x = m \<and> num_sources x = n)
                 (merged_payees two_view_hits))
    \<and> length (union_candidates two_view_hits None 120) \<le> nat (effective_k None 120))"
proof -
  have h: "0 \<le> effective_k None 120" by (simp add: effective_k_def)
  show ?thesis
    by (rule conjI [OF h union_candidates_sorted_stable_truncated [OF h]])
qed

subsection \<open>Idempotence of canonicalize\<close>








subsection \<open>sub_words\<close>






























subsection \<open>join\<close>



subsection \<open>Tokens that consist of lower-case letters, digits and ampersands\<close>





















lemma canon_independent_of_codes:
  "canon (canonicalize dm x) = canon (canonicalize dm' x)"
  by (simp add: canon_canonicalize tokens_canonicalize)




subsection \<open>compute_features\<close>

lemma overlap_block_ok:
  assumes "finite q"
  shows "\<exists>j n r. overlap_block q c = Inr (j, n, r)"
proof (cases "q \<noteq> {} \<and> c \<noteq> {}")
  case True
  then have "card q \<noteq> 0" using assms by simp
  then show ?thesis using True
    by (simp add: overlap_block_def Let_def py_div_def and_then_def)
next
  case False
  then show ?thesis by (auto simp: overlap_block_def)
qed

lemma idf_overlap_block_ok: "\<exists>r. idf_overlap_block cache q c = Inr r"
  by (simp add: idf_overlap_block_def Let_def py_div_def)


lemma compute_features_shape:
  "\<exists>feature_dict.
     compute_features e query_name candidate_record candidate_scores
       = Inr (map (\<lambda>name. the (map_of feature_dict name)) get_feature_names, feature_dict)
     \<and> map fst feature_dict = feature_names_src
     \<and> map_of feature_dict ''exact_match''
         = Some (if canon (canonicalize (doublemetaphone e) query_name)
                    = p_name_canon candidate_record then 1 else 0)"
proof -
  let ?q = "canonicalize (doublemetaphone e) query_name"
  obtain j1 n1 r1 where 1: "overlap_block (set (dm_codes ?q)) (set (p_dm_codes candidate_record)) = Inr (j1, n1, r1)"
    using overlap_block_ok [of "set (dm_codes ?q)"] by blast
  obtain j2 n2 r2 where 2: "overlap_block (set (tokens ?q)) (set (p_name_tokens candidate_record)) = Inr (j2, n2, r2)"
    using overlap_block_ok [of "set (tokens ?q)"] by blast
  obtain i where 3: "idf_overlap_block (IDF_CACHE e) (set (tokens ?q)) (set (p_name_tokens candidate_record)) = Inr i"
    using idf_overlap_block_ok by blast
  show ?thesis
    unfolding compute_features_def Let_def get_feature_names_def feature_names_src_def
    by (simp add: 1 2 3 py_div_def and_then_def split del: if_split)
qed

text \<open>
  Claim C10: \<open>compute_features\<close> never raises a division error. With every division
  written as \<open>py_div\<close>, which raises on a zero divisor, the function returns a feature
  vector of 28 entries for every query, candidate record and score dict.
\<close>

theorem compute_features_total:
  "\<exists>feature_vector feature_dict.
     compute_features e query_name candidate_record candidate_scores
       = Inr (feature_vector, feature_dict)
     \<and> length feature_vector = 28 \<and> map fst feature_dict = feature_names_src"
proof -
  obtain fd where "compute_features e query_name candidate_record candidate_scores
       = Inr (map (\<lambda>name. the (map_of fd name)) get_feature_names, fd)"
     and "map fst fd = feature_names_src"
    using compute_features_shape by blast
  moreover have "length get_feature_names = 28"
    by (simp add: get_feature_names_def feature_names_src_def)
  ultimately show ?thesis by simp
qed

lemma feature_get_of_dict:
  "name \<in> set get_feature_names \<Longrightarrow>
     feature_get (map (\<lambda>name. the (map_of feature_dict name)) get_feature_names) name dflt
       = the (map_of feature_dict name)"
  by (simp add: feature_get_def map_of_zip_map)

lemma compute_features_exact_match:
  "\<exists>fv fd. compute_features e query_name candidate_record candidate_scores = Inr (fv, fd)
     \<and> feature_get fv ''exact_match'' 0
         = (if canon (canonicalize (doublemetaphone e) query_name)
               = p_name_canon candidate_record then 1 else 0)"
proof -
  obtain fd where fd: "compute_features e query_name candidate_record candidate_scores
       = Inr (map (\<lambda>name. the (map_of fd name)) get_feature_names, fd)"
     and ex: "map_of fd ''exact_match''
         = Some (if canon (canonicalize (doublemetaphone e) query_name)
                    = p_name_canon candidate_record then 1 else 0)"
    using compute_features_shape by blast
  have "''exact_match'' \<in> set get_feature_names" by (simp add: get_feature_names_eq)
  from feature_get_of_dict [OF this, of fd 0] ex fd show ?thesis by simp
qed


lemma find_unique:
  "distinct (map f xs) \<Longrightarrow> x \<in> set xs \<Longrightarrow> find (\<lambda>p. f p = f x) xs = Some x"
  by (induction xs) (auto simp: rev_image_eqI)

lemma find_in_set: "find P xs = Some x \<Longrightarrow> x \<in> set xs \<and> P x"
  by (induction xs) (auto split: if_splits)

lemma sort_by_probability_single: "sort_by_probability [c] = [c]"
  by (simp add: sort_by_probability_def sorted_reverse_def)

subsection \<open>The matching pipeline\<close>

text \<open>
  Claim C8: a name whose canonical form is empty gets \<open>no_match\<close> with confidence 0 and
  the reason \<open>Empty or invalid name\<close>, and the session comes back as it went in: no
  statement was executed and no table changed.
\<close>

theorem empty_canonical_is_no_match_without_writes:
  assumes "canon (canonicalize (doublemetaphone e) name_raw) = []"
  shows "match_one_internal e name_raw d
           = (Inr \<lparr>decision = no_match, confidence = 0, matched_payee = None, candidates = [],
                   reason = Some ''Empty or invalid name''\<rparr>, d)"
  using assms by (simp add: match_one_internal_def Let_def)

lemma canon_blank: "canon (canonicalize no_codes '' The Company, Inc. '') = []"
  by code_simp

theorem empty_canonical_witness:
  "canon (canonicalize (doublemetaphone sample_env) '' The Company, Inc. '') = []
   \<and> match_one_internal sample_env '' The Company, Inc. '' sample_db
       = (Inr \<lparr>decision = no_match, confidence = 0, matched_payee = None, candidates = [],
               reason = Some ''Empty or invalid name''\<rparr>, sample_db)"
proof -
  have h: "canon (canonicalize (doublemetaphone sample_env) '' The Company, Inc. '') = []"
    by (simp add: sample_env_def canon_blank)
  show ?thesis
    by (rule conjI [OF h empty_canonical_is_no_match_without_writes [OF h]])
qed

lemma predict_proba_bounds:
  assumes "\<forall>m. model c = Some m \<longrightarrow> (\<forall>fs p. m fs = Inr p \<longrightarrow> 0 \<le> p \<and> p \<le> 1)"
  shows "0 \<le> predict_proba c fs \<and> predict_proba c fs \<le> 1"
  using assms heuristic_score_bounds [of fs]
  by (auto simp: predict_proba_def split: option.split sum.split)

lemma score_candidates_bounds:
  assumes "\<forall>m. model (classifier_instance e) = Some m
             \<longrightarrow> (\<forall>fs p. m fs = Inr p \<longrightarrow> 0 \<le> p \<and> p \<le> 1)"
  shows "score_candidates e name_raw cands acc d = (Inr scored, d') \<Longrightarrow>
     list_all (\<lambda>c. 0 \<le> probability c \<and> probability c \<le> 1) acc \<Longrightarrow> list_all (\<lambda>c. 0 \<le> probability c \<and> probability c \<le> 1) scored"
proof (induction cands arbitrary: acc d)
  case Nil
  then show ?case by simp
next
  case (Cons cand rest)
  let ?d = "log_statement d (SelectPayee (payee_id cand))"
  from Cons.prems(1) have nr: "\<not> raises e d (SelectPayee (payee_id cand))"
    by (auto simp: Let_def split: if_splits)
  show ?case
  proof (cases "find (\<lambda>p. p_payee_id p = payee_id cand) (payees d)")
    case None
    then have "score_candidates e name_raw rest acc ?d = (Inr scored, d')"
      using Cons.prems(1) nr by (simp add: Let_def)
    then show ?thesis using Cons.prems(2) by (rule Cons.IH)
  next
    case (Some row)
    obtain fv fd where cf: "compute_features e name_raw row (scores cand) = Inr (fv, fd)"
      using compute_features_total by blast
    let ?sc = "\<lparr>s_payee_id = p_payee_id row, s_name = p_name_raw row,
               s_bq_supplier_id = p_bq_supplier_id row,
               probability = predict_proba (classifier_instance e) fv,
               features = fd, top_features = explain fv 3, s_sources = sources cand\<rparr>"
    have "score_candidates e name_raw rest (acc @ [?sc]) ?d = (Inr scored, d')"
      using Cons.prems(1) nr Some cf by (simp add: Let_def)
    moreover have "list_all (\<lambda>c. 0 \<le> probability c \<and> probability c \<le> 1) (acc @ [?sc])"
      using Cons.prems(2) predict_proba_bounds [OF assms, of fv] by simp
    ultimately show ?thesis by (rule Cons.IH)
  qed
qed

lemma set_slice_to: "set (slice_to k xs) \<subseteq> set xs"
  by (auto simp: slice_to_def dest: in_set_takeD)

lemma set_sort_by_probability: "set (sort_by_probability xs) = set xs"
  by (simp add: sort_by_probability_def sorted_reverse_def)

lemma match_result_candidates:
  assumes "match_one_internal e name_raw d = (Inr r, d')"
  shows "candidates r = []
       \<or> (\<exists>cands d0 scored d1.
             score_candidates e name_raw cands [] d0 = (Inr scored, d1)
             \<and> candidates r = slice_to 5 (sort_by_probability scored))"
proof (cases "canon (canonicalize (doublemetaphone e) name_raw) = []")
  case True
  then show ?thesis using assms by (auto simp: match_one_internal_def Let_def)
next
  case ne: False
  obtain gc d0 where gc: "get_candidates e d name_raw = (gc, d0)" by (cases "get_candidates e d name_raw")
  show ?thesis
  proof (cases gc)
    case (Inl err)
    then show ?thesis using assms ne gc by (simp add: match_one_internal_def Let_def)
  next
    case (Inr cands)
    show ?thesis
    proof (cases "cands = []")
      case True
      then show ?thesis using assms ne gc Inr by (auto simp: match_one_internal_def Let_def)
    next
      case c: False
      obtain sr d1 where sc: "score_candidates e name_raw cands [] d0 = (sr, d1)"
        by (cases "score_candidates e name_raw cands [] d0")
      show ?thesis
      proof (cases sr)
        case (Inl err)
        then show ?thesis using assms ne gc Inr c sc
          by (simp add: match_one_internal_def Let_def)
      next
        case sco: (Inr scored)
        show ?thesis
        proof (cases "sort_by_probability scored")
          case Nil
          then show ?thesis using assms ne gc Inr c sc sco
            by (auto simp: match_one_internal_def Let_def)
        next
          case (Cons best others)
          have "candidates r = [] \<or> candidates r = slice_to 5 (sort_by_probability scored)"
            using assms ne gc Inr c sc sco Cons
            by (auto simp: match_one_internal_def Let_def
                split: sum.splits decision.splits if_splits prod.splits)
          then show ?thesis using sc sco by blast
        qed
      qed
    qed
  qed
qed

lemma predict_proba_heuristic_exact:
  "\<not> is_trained c \<Longrightarrow> feature_get fv ''exact_match'' 0 = 1 \<Longrightarrow> predict_proba c fv = 99 / 100"
  using heuristic_score_exact [of fv] by (simp add: predict_proba_def split: option.split)

lemma score_exact_candidate:
  assumes q: "canon (canonicalize (doublemetaphone e) name_raw) = p_name_canon row"
    and row: "row \<in> set (payees d)"
    and pk: "distinct (map p_payee_id (payees d))"
    and ok: "\<not> raises e d (SelectPayee (p_payee_id row))"
    and proba: "\<And>fv. feature_get fv ''exact_match'' 0 = 1
                  \<Longrightarrow> predict_proba (classifier_instance e) fv = p"
  shows "\<exists>sc. score_candidates e name_raw [exact_candidate (p_payee_id row, 1, src)] [] d
                = (Inr [sc], log_statement d (SelectPayee (p_payee_id row)))
          \<and> s_payee_id sc = p_payee_id row \<and> s_name sc = p_name_raw row
          \<and> s_bq_supplier_id sc = p_bq_supplier_id row \<and> probability sc = p"
proof -
  let ?cand = "exact_candidate (p_payee_id row, 1, src)"
  have fnd: "find (\<lambda>p. p_payee_id p = p_payee_id row) (payees d) = Some row"
    by (rule find_unique [OF pk row])
  obtain fv fd where cf: "compute_features e name_raw row (scores ?cand) = Inr (fv, fd)"
    and ex: "feature_get fv ''exact_match'' 0 = 1"
    using compute_features_exact_match [of e name_raw row "scores ?cand"] q by auto
  have pp: "predict_proba (classifier_instance e) fv = p"
    using ex by (rule proba)
  have pid: "payee_id ?cand = p_payee_id row" by (simp add: exact_candidate_def)
  show ?thesis using ok fnd cf pp by (simp add: Let_def pid)
qed

lemma exact_hit_result:
  assumes q: "canon (canonicalize (doublemetaphone e) name_raw) = q" and ne: "q \<noteq> []"
    and hit: "find (\<lambda>p. p_name_canon p = q) (payees d) = Some row"
    and pk: "distinct (map p_payee_id (payees d))"
    and ok1: "\<not> raises e d (SelectExact q)"
    and ok2: "\<not> raises e (log_statement d (SelectExact q)) (SelectPayee (p_payee_id row))"
    and heur: "\<not> is_trained (classifier_instance e)"
    and th: "t_high (settings e) \<le> 99 / 100"
  shows "\<exists>r. match_one_internal e name_raw d
            = (Inr r, d\<lparr>executed := executed d @ [SelectExact q, SelectPayee (p_payee_id row)]\<rparr>)
          \<and> decision r = auto_match \<and> confidence r = 99 / 100
          \<and> matched_payee r = Some (p_payee_id row, p_name_raw row, p_bq_supplier_id row)
          \<and> map s_payee_id (candidates r) = [p_payee_id row]"
proof -
  let ?d1 = "log_statement d (SelectExact q)"
  let ?d2 = "log_statement ?d1 (SelectPayee (p_payee_id row))"
  let ?cand = "exact_candidate (p_payee_id row, 1, ''exact:1.000'')"
  from find_in_set [OF hit] have row: "row \<in> set (payees d)" "p_name_canon row = q" by auto
  have gc: "get_candidates e d name_raw = (Inr [?cand], ?d1)"
    using q ne hit ok1 by (simp add: get_candidates_def get_exact_match_def Let_def)
  have p1: "payees ?d1 = payees d" by (simp add: log_statement_def)
  obtain sc where sc: "score_candidates e name_raw [?cand] [] ?d1 = (Inr [sc], ?d2)"
    and f: "s_payee_id sc = p_payee_id row" "s_name sc = p_name_raw row"
      "s_bq_supplier_id sc = p_bq_supplier_id row" "probability sc = 99 / 100"
    using score_exact_candidate [of e name_raw row ?d1 "99 / 100" "''exact:1.000''"]
      q row pk ok2 predict_proba_heuristic_exact [OF heur]
    by (auto simp: p1)
  have d2: "?d2 = d\<lparr>executed := executed d @ [SelectExact q, SelectPayee (p_payee_id row)]\<rparr>"
    by (simp add: log_statement_def)
  show ?thesis
    unfolding match_one_internal_def Let_def q
    using ne th
    by (simp add: gc sc sort_by_probability_single f slice_to_def d2 [symmetric]
        del: score_candidates.simps)
qed

lemma canon_plumbing_acme:
  "canon (canonicalize no_codes ''Plumbing, ACME'') = ''acme plumbing''"
  by code_simp

lemma sample_facts:
  "doublemetaphone sample_env = no_codes"
  "\<And>d st. \<not> raises sample_env d st"
  "\<not> is_trained (classifier_instance sample_env)"
  "model (classifier_instance sample_env) = None"
  "t_high (settings sample_env) \<le> 99 / 100"
  "payees sample_db = [acme_row]"
  "p_name_canon acme_row = ''acme plumbing''"
  "p_payee_id acme_row = 1"
  by (simp_all add: sample_env_def default_settings_def sample_db_def acme_row_def)

lemma sample_exact_hit:
  "\<exists>r. match_one_internal sample_env ''Plumbing, ACME'' sample_db
          = (Inr r, sample_db\<lparr>executed := executed sample_db @
                      [SelectExact ''acme plumbing'', SelectPayee 1]\<rparr>)
      \<and> decision r = auto_match \<and> confidence r = 99 / 100
      \<and> matched_payee r = Some (1, p_name_raw acme_row, p_bq_supplier_id acme_row)
      \<and> map s_payee_id (candidates r) = [1]"
proof -
  have q: "canon (canonicalize (doublemetaphone sample_env) ''Plumbing, ACME'') = ''acme plumbing''"
    by (simp add: sample_facts canon_plumbing_acme)
  have ne: "''acme plumbing'' \<noteq> []" by simp
  have hit: "find (\<lambda>p. p_name_canon p = ''acme plumbing'') (payees sample_db) = Some acme_row"
    by (simp add: sample_facts)
  have pk: "distinct (map p_payee_id (payees sample_db))" by (simp add: sample_facts)
  from exact_hit_result [OF q ne hit pk sample_facts(2) sample_facts(2) sample_facts(3)
      sample_facts(5)]
  show ?thesis by (simp only: sample_facts(8))
qed

text \<open>
  Claim C1, as stated, fails in the confidence: the exact hit is scored like any other
  candidate, and the heuristic scorer gives an exact canonical match 0.99. The sample
  registry holds \<open>Acme Plumbing Inc\<close>; the query \<open>Plumbing, ACME\<close> has the same canonical
  form.
\<close>

theorem exact_hit_confidence_is_not_one:
  "canon (canonicalize (doublemetaphone sample_env) ''Plumbing, ACME'') = p_name_canon acme_row
   \<and> acme_row \<in> set (payees sample_db)
   \<and> map_sum id decision (fst (match_one_internal sample_env ''Plumbing, ACME'' sample_db))
       = Inr auto_match
   \<and> map_sum id confidence (fst (match_one_internal sample_env ''Plumbing, ACME'' sample_db))
       = Inr (99 / 100)"
  using sample_exact_hit by (auto simp: sample_facts canon_plumbing_acme)

lemma find_exists: "\<exists>x\<in>set xs. P x \<Longrightarrow> \<exists>x. find P xs = Some x"
  by (induction xs) auto

text \<open>
  Claim C1, amended: if the canonical form of the query is not empty and equals the
  canonical name of a payee, payee ids are unique, the engine raises on no statement,
  the heuristic scorer is in use and \<open>T_high\<close> is at most 0.99, then the pipeline returns
  \<open>auto_match\<close> for such a payee with confidence 0.99, and the only statements it
  executes are the exact query and the fetch of that payee: no other view is consulted.
\<close>

theorem exact_canonical_hit_auto_matches:
  assumes "canon (canonicalize (doublemetaphone e) name_raw) \<noteq> []"
    and "\<exists>p\<in>set (payees d). p_name_canon p = canon (canonicalize (doublemetaphone e) name_raw)"
    and "distinct (map p_payee_id (payees d))"
    and "\<forall>d' st. \<not> raises e d' st"
    and "\<not> is_trained (classifier_instance e)"
    and "t_high (settings e) \<le> 99 / 100"
  shows "\<exists>r row. row \<in> set (payees d)
           \<and> p_name_canon row = canon (canonicalize (doublemetaphone e) name_raw)
           \<and> match_one_internal e name_raw d
               = (Inr r, d\<lparr>executed := executed d @
                    [SelectExact (canon (canonicalize (doublemetaphone e) name_raw)),
                     SelectPayee (p_payee_id row)]\<rparr>)
           \<and> decision r = auto_match \<and> confidence r = 99 / 100
           \<and> matched_payee r = Some (p_payee_id row, p_name_raw row, p_bq_supplier_id row)"
proof -
  let ?q = "canon (canonicalize (doublemetaphone e) name_raw)"
  obtain row where hit: "find (\<lambda>p. p_name_canon p = ?q) (payees d) = Some row"
    using find_exists [OF assms(2)] by blast
  from find_in_set [OF hit] have row: "row \<in> set (payees d)" "p_name_canon row = ?q" by auto
  from exact_hit_result [OF refl assms(1) hit assms(3) _ _ assms(5) assms(6)] assms(4)
  obtain r where "match_one_internal e name_raw d
            = (Inr r, d\<lparr>executed := executed d @ [SelectExact ?q, SelectPayee (p_payee_id row)]\<rparr>)"
     "decision r = auto_match" "confidence r = 99 / 100"
     "matched_payee r = Some (p_payee_id row, p_name_raw row, p_bq_supplier_id row)"
    by blast
  with row show ?thesis by blast
qed

theorem exact_canonical_hit_auto_matches_witness:
  "canon (canonicalize (doublemetaphone sample_env) ''Plumbing, ACME'') \<noteq> []
   \<and> (\<exists>p\<in>set (payees sample_db).
         p_name_canon p = canon (canonicalize (doublemetaphone sample_env) ''Plumbing, ACME''))
   \<and> distinct (map p_payee_id (payees sample_db))
   \<and> (\<forall>d' st. \<not> raises sample_env d' st)
   \<and> \<not> is_trained (classifier_instance sample_env)
   \<and> t_high (settings sample_env) \<le> 99 / 100
   \<and> (\<exists>r row. row \<in> set (payees sample_db)
           \<and> p_name_canon row = canon (canonicalize (doublemetaphone sample_env) ''Plumbing, ACME'')
           \<and> match_one_internal sample_env ''Plumbing, ACME'' sample_db
               = (Inr r, sample_db\<lparr>executed := executed sample_db @
                    [SelectExact (canon (canonicalize (doublemetaphone sample_env) ''Plumbing, ACME'')),
                     SelectPayee (p_payee_id row)]\<rparr>)
           \<and> decision r = auto_match \<and> confidence r = 99 / 100
           \<and> matched_payee r = Some (p_payee_id row, p_name_raw row, p_bq_supplier_id row))"
proof -
  have h1: "canon (canonicalize (doublemetaphone sample_env) ''Plumbing, ACME'') \<noteq> []"
    by (simp add: sample_facts canon_plumbing_acme)
  have h2: "\<exists>p\<in>set (payees sample_db).
         p_name_canon p = canon (canonicalize (doublemetaphone sample_env) ''Plumbing, ACME'')"
    by (simp add: sample_facts canon_plumbing_acme)
  have h3: "distinct (map p_payee_id (payees sample_db))" by (simp add: sample_facts)
  have h4: "\<forall>d' st. \<not> raises sample_env d' st" by (simp add: sample_facts)
  have h5: "\<not> is_trained (classifier_instance sample_env)" by (simp add: sample_facts)
  have h6: "t_high (settings sample_env) \<le> 99 / 100" by (rule sample_facts)
  from exact_canonical_hit_auto_matches [OF h1 h2 h3 h4 h5 h6] h1 h2 h3 h4 h5 h6
  show ?thesis by blast
qed

text \<open>
  Claim C5: every scored candidate has a probability in \<open>[0, 1]\<close>: each one the scoring
  loop produces, and so each one the result carries. The heuristic clamps its score; a
  learned model is taken to return probabilities, as scikit-learn's \<open>predict_proba\<close>
  does.
\<close>

theorem scored_probabilities_in_unit_interval:
  assumes "\<forall>m fs p. model (classifier_instance e) = Some m \<longrightarrow> m fs = Inr p
             \<longrightarrow> 0 \<le> p \<and> p \<le> 1"
  shows "(score_candidates e name_raw cands [] d0 = (Inr scored, d1)
            \<longrightarrow> list_all (\<lambda>c. 0 \<le> probability c \<and> probability c \<le> 1) scored)
       \<and> (match_one_internal e name_raw d = (Inr r, d')
            \<longrightarrow> list_all (\<lambda>c. 0 \<le> probability c \<and> probability c \<le> 1) (candidates r))"
proof -
  have ok: "\<forall>m. model (classifier_instance e) = Some m
             \<longrightarrow> (\<forall>fs p. m fs = Inr p \<longrightarrow> 0 \<le> p \<and> p \<le> 1)"
    using assms by blast
  have loop: "list_all (\<lambda>c. 0 \<le> probability c \<and> probability c \<le> 1) sc"
    if "score_candidates e name_raw cs [] da = (Inr sc, db)" for cs da sc db
    using score_candidates_bounds [OF ok that] by simp
  have "list_all (\<lambda>c. 0 \<le> probability c \<and> probability c \<le> 1) (candidates r)"
    if m: "match_one_internal e name_raw d = (Inr r, d')"
  proof -
    from match_result_candidates [OF m] show ?thesis
    proof
      assume "candidates r = []"
      then show ?thesis by simp
    next
      assume "\<exists>cands d0 scored d1.
             score_candidates e name_raw cands [] d0 = (Inr scored, d1)
             \<and> candidates r = slice_to 5 (sort_by_probability scored)"
      then obtain cs da sc db where s: "score_candidates e name_raw cs [] da = (Inr sc, db)"
        and c: "candidates r = slice_to 5 (sort_by_probability sc)" by blast
      have "set (candidates r) \<subseteq> set sc"
        unfolding c using set_slice_to [of 5 "sort_by_probability sc"]
        by (simp add: set_sort_by_probability)
      then show ?thesis using loop [OF s] by (auto simp: list_all_iff)
    qed
  qed
  with loop show ?thesis by blast
qed

lemma trained_facts:
  "doublemetaphone trained_env = no_codes"
  "\<And>d st. \<not> raises trained_env d st"
  "model (classifier_instance trained_env) = Some (\<lambda>fs. Inr (1 / 2))"
  "\<And>fv. predict_proba (classifier_instance trained_env) fv = 1 / 2"
  by (simp_all add: trained_env_def sample_env_def predict_proba_def)

theorem scored_probabilities_in_unit_interval_witness:
  "model (classifier_instance trained_env) = Some (\<lambda>fs. Inr (1 / 2))
   \<and> (\<exists>scored d1.
         score_candidates trained_env ''Plumbing, ACME'' [exact_candidate (1, 1, ''exact:1.000'')]
           [] sample_db = (Inr scored, d1)
         \<and> map probability scored = [1 / 2]
         \<and> list_all (\<lambda>c. 0 \<le> probability c \<and> probability c \<le> 1) scored)
   \<and> model (classifier_instance sample_env) = None
   \<and> (\<exists>r d'. match_one_internal sample_env ''Plumbing, ACME'' sample_db = (Inr r, d')
         \<and> map s_payee_id (candidates r) = [1]
         \<and> list_all (\<lambda>c. 0 \<le> probability c \<and> probability c \<le> 1) (candidates r))"
proof -
  have ht: "\<forall>m fs p. model (classifier_instance trained_env) = Some m \<longrightarrow> m fs = Inr p
             \<longrightarrow> 0 \<le> p \<and> p \<le> 1"
    by (auto simp: trained_facts)
  have hs: "\<forall>m fs p. model (classifier_instance sample_env) = Some m \<longrightarrow> m fs = Inr p
             \<longrightarrow> 0 \<le> p \<and> p \<le> 1"
    by (simp add: sample_facts)
  have q: "canon (canonicalize (doublemetaphone trained_env) ''Plumbing, ACME'')
             = p_name_canon acme_row"
    by (simp add: trained_facts sample_facts canon_plumbing_acme)
  have row: "acme_row \<in> set (payees sample_db)" by (simp add: sample_facts)
  have pk: "distinct (map p_payee_id (payees sample_db))" by (simp add: sample_facts)
  from score_exact_candidate [OF q row pk trained_facts(2) trained_facts(4),
      of "''exact:1.000''"]
  obtain sc where s: "score_candidates trained_env ''Plumbing, ACME''
        [exact_candidate (1, 1, ''exact:1.000'')] [] sample_db
          = (Inr [sc], log_statement sample_db (SelectPayee 1))"
    and p: "probability sc = 1 / 2"
    by (auto simp only: sample_facts(8))
  define d' where "d' = sample_db\<lparr>executed := executed sample_db @
                      [SelectExact ''acme plumbing'', SelectPayee 1]\<rparr>"
  from sample_exact_hit obtain r where
    r: "match_one_internal sample_env ''Plumbing, ACME'' sample_db = (Inr r, d')
      \<and> decision r = auto_match \<and> confidence r = 99 / 100
      \<and> matched_payee r = Some (1, p_name_raw acme_row, p_bq_supplier_id acme_row)
      \<and> map s_payee_id (candidates r) = [1]"
    unfolding d'_def ..
  have m: "match_one_internal sample_env ''Plumbing, ACME'' sample_db = (Inr r, d')"
    using r by (rule conjunct1)
  have c: "map s_payee_id (candidates r) = [1]"
    using r by (elim conjE)
  from scored_probabilities_in_unit_interval [OF ht, of "''Plumbing, ACME''"
      "[exact_candidate (1, 1, ''exact:1.000'')]" sample_db "[sc]"
      "log_statement sample_db (SelectPayee 1)"] s
  have 1: "list_all (\<lambda>c. 0 \<le> probability c \<and> probability c \<le> 1) [sc]"
    by blast
  from scored_probabilities_in_unit_interval [OF hs, of "''Plumbing, ACME''" _ _ _ _
      sample_db r d'] m
  have 2: "list_all (\<lambda>c. 0 \<le> probability c \<and> probability c \<le> 1) (candidates r)"
    by blast
  from trained_facts(3) sample_facts(4) s p m c 1 2 show ?thesis by auto
qed



subsection \<open>Batches\<close>

text \<open>
  When every call of \<open>match_one\<close> returns, the streaming branch sends one line per name
  in input order, and so does the batch driver if the chunks happen to finish in the
  order in which they were submitted.
\<close>

lemma concat_chunk_list: "0 < n \<Longrightarrow> concat (chunk_list n xs) = xs"
proof (induction n xs rule: chunk_list.induct)
  case (1 n xs)
  then show ?case by (subst chunk_list.simps) auto
qed

lemma process_chunk_ok:
  "process_chunk (\<lambda>n. Inr (r n)) chunk = Inr (map (\<lambda>n. (n, r n)) chunk)"
  by (induction chunk) simp_all

lemma stream_results_ok:
  "stream_results (\<lambda>n. Inr (r n)) names = (map (\<lambda>n. (n, r n)) names, None)"
  by (induction names) simp_all

lemma batch_process_in_order:
  assumes "0 < workers" "0 < chunk_size"
  shows "batch_process items (process_chunk (\<lambda>n. Inr (r n))) workers chunk_size
           [0..<length (chunk_list (nat chunk_size) items)]
         = Inr (map (\<lambda>n. (n, r n)) items)"
proof -
  let ?chunks = "chunk_list (nat chunk_size) items"
  have "concat (map (\<lambda>i. map (\<lambda>n. (n, r n)) (?chunks ! i)) [0..<length ?chunks])
          = concat (map (map (\<lambda>n. (n, r n))) (map ((!) ?chunks) [0..<length ?chunks]))"
    by (simp add: comp_def)
  also have "\<dots> = map (\<lambda>n. (n, r n)) (concat ?chunks)"
    by (simp only: map_nth map_concat)
  also have "\<dots> = map (\<lambda>n. (n, r n)) items"
    using assms(2) by (simp add: concat_chunk_list)
  finally show ?thesis using assms
    by (simp add: batch_process_def Let_def process_chunk_ok)
qed

lemma chunk_two:
  "chunk_list 1000 (replicate 1000 a @ [b]) = [replicate 1000 a, [b]]"
  apply (subst chunk_list.simps)
  apply (subst chunk_list.simps)
  apply (subst chunk_list.simps)
  apply simp
  done

text \<open>
  A batch that fits into one chunk loses all its results when one call of \<open>match_one\<close>
  raises: the exception fails the chunk, and \<open>batch_process\<close> only logs it.
\<close>

lemma match_batch_drops_failed_chunk:
  "match_batch (\<lambda>n. if n = b then Inl DbError else Inr (r n)) default_settings [a, b] [0]
     = Inr []"
  apply (simp add: match_batch_def batch_process_def default_settings_def)
  apply (subst chunk_list.simps)
  apply (subst chunk_list.simps)
  apply simp
  done

text \<open>
  Claim C3 requires the non-streaming batch to return one result per name in input
  order. The code returns the chunks in the order in which they finish: with the
  default chunk size of 1000, a batch of 1000 times the name \<open>a\<close> followed by the name
  \<open>b\<close> has two chunks, and when the short second chunk finishes first (completion order
  1, 0) the result of \<open>b\<close> comes first.
\<close>

theorem match_batch_returns_completion_order:
  "match_batch (\<lambda>n. Inr (r n)) default_settings (replicate 1000 a @ [b]) [1, 0]
     = Inr ((b, r b) # replicate 1000 (a, r a))"
  by (simp add: match_batch_def batch_process_def default_settings_def chunk_two
      process_chunk_ok)

end
